theory Spec2Isabelle
  imports Main "HOL-Library.Sublist"
begin

section \<open>Collection data\<close>

text \<open>
  The catalog types of the collection data module. An edge holds the positions of its
  origin and of its destination in the \<open>variables\<close> array of its collection. Some fields
  of a collection are prefixed with \<open>collection\<close>, since a variable has a concept id and
  a name too, and \<open>variables\<close> is also a field of the request (below).
\<close>

record Variable =
  conceptId :: string
  dataType :: string
  name :: string

record VariableEdge =
  destinationIndex :: nat
  originIndex :: nat

record Collection =
  collectionConceptId :: string
  collectionName :: string
  collectionVariables :: "Variable list"
  variableEdges :: "VariableEdge list"

definition atl08 :: Collection where
  "atl08 = \<lparr>
    collectionConceptId = ''C1234714698-EEDTEST'',
    collectionName = ''ATL08'',
    collectionVariables = [
      \<lparr>conceptId = ''V1237330160-EEDTEST'', dataType = ''int16'', name = ''/gt1l/signal_photons/classed_pc_flag''\<rparr>,
      \<lparr>conceptId = ''V1237330281-EEDTEST'', dataType = ''float32'', name = ''/gt1l/land_segments/dem_h''\<rparr>,
      \<lparr>conceptId = ''V1237332028-EEDTEST'', dataType = ''float32'', name = ''/gt1l/land_segments/canopy/h_canopy''\<rparr>,
      \<lparr>conceptId = ''V1237332356-EEDTEST'', dataType = ''float32'', name = ''/gt1l/land_segments/latitude''\<rparr>,
      \<lparr>conceptId = ''V1237332501-EEDTEST'', dataType = ''float32'', name = ''/gt1l/land_segments/longitude''\<rparr>,
      \<lparr>conceptId = ''V1240989290-EEDTEST'', dataType = ''float64'', name = ''/gt1l/signal_photons/delta_time''\<rparr>,
      \<lparr>conceptId = ''V1240989293-EEDTEST'', dataType = ''int32'', name = ''/gt1l/signal_photons/classed_pc_indx''\<rparr>,
      \<lparr>conceptId = ''V1240989295-EEDTEST'', dataType = ''int8'', name = ''/gt1l/signal_photons/d_flag''\<rparr>,
      \<lparr>conceptId = ''V1240989297-EEDTEST'', dataType = ''int32'', name = ''/gt1l/signal_photons/ph_segment_id''\<rparr>,
      \<lparr>conceptId = ''V1240989299-EEDTEST'', dataType = ''float64'', name = ''/gt1l/land_segments/delta_time''\<rparr>,
      \<lparr>conceptId = ''V1240989301-EEDTEST'', dataType = ''int32'', name = ''/gt1l/land_segments/ph_ndx_beg''\<rparr>,
      \<lparr>conceptId = ''V1240989303-EEDTEST'', dataType = ''int64'', name = ''/gt1l/land_segments/n_seg_ph''\<rparr>
    ],
    variableEdges = [
      \<lparr>destinationIndex = 5, originIndex = 0\<rparr>,
      \<lparr>destinationIndex = 5, originIndex = 6\<rparr>,
      \<lparr>destinationIndex = 5, originIndex = 7\<rparr>,
      \<lparr>destinationIndex = 5, originIndex = 8\<rparr>,
      \<lparr>destinationIndex = 10, originIndex = 5\<rparr>,
      \<lparr>destinationIndex = 11, originIndex = 5\<rparr>,
      \<lparr>destinationIndex = 3, originIndex = 10\<rparr>,
      \<lparr>destinationIndex = 4, originIndex = 10\<rparr>,
      \<lparr>destinationIndex = 9, originIndex = 10\<rparr>,
      \<lparr>destinationIndex = 3, originIndex = 11\<rparr>,
      \<lparr>destinationIndex = 4, originIndex = 11\<rparr>,
      \<lparr>destinationIndex = 9, originIndex = 11\<rparr>,
      \<lparr>destinationIndex = 3, originIndex = 1\<rparr>,
      \<lparr>destinationIndex = 4, originIndex = 1\<rparr>,
      \<lparr>destinationIndex = 9, originIndex = 1\<rparr>,
      \<lparr>destinationIndex = 3, originIndex = 2\<rparr>,
      \<lparr>destinationIndex = 4, originIndex = 2\<rparr>,
      \<lparr>destinationIndex = 9, originIndex = 2\<rparr>,
      \<lparr>destinationIndex = 9, originIndex = 3\<rparr>,
      \<lparr>destinationIndex = 9, originIndex = 4\<rparr>,
      \<lparr>destinationIndex = 3, originIndex = 9\<rparr>,
      \<lparr>destinationIndex = 4, originIndex = 9\<rparr>,
      \<lparr>destinationIndex = 3, originIndex = 4\<rparr>,
      \<lparr>destinationIndex = 4, originIndex = 3\<rparr>
    ]\<rparr>"

definition rssmif16d :: Collection where
  "rssmif16d = \<lparr>
    collectionConceptId = ''C1238392622-EEDTEST'',
    collectionName = ''RSSMIF16D'',
    collectionVariables = [
      \<lparr>conceptId = ''V1238395074-EEDTEST'', dataType = ''int16'', name = ''atmosphere_water_vapor_content''\<rparr>,
      \<lparr>conceptId = ''V1238395076-EEDTEST'', dataType = ''float32'', name = ''latitude''\<rparr>,
      \<lparr>conceptId = ''V1238395077-EEDTEST'', dataType = ''int16'', name = ''rainfall_rate''\<rparr>,
      \<lparr>conceptId = ''V1238395078-EEDTEST'', dataType = ''int16'', name = ''atmosphere_cloud_liquid_water_content''\<rparr>,
      \<lparr>conceptId = ''V1238395080-EEDTEST'', dataType = ''float32'', name = ''longitude''\<rparr>,
      \<lparr>conceptId = ''V1238395084-EEDTEST'', dataType = ''int16'', name = ''sst_dtime''\<rparr>,
      \<lparr>conceptId = ''V1238395085-EEDTEST'', dataType = ''int16'', name = ''wind_speed''\<rparr>,
      \<lparr>conceptId = ''V1238395086-EEDTEST'', dataType = ''int16'', name = ''time''\<rparr>
    ],
    variableEdges = [
      \<lparr>destinationIndex = 1, originIndex = 0\<rparr>,
      \<lparr>destinationIndex = 4, originIndex = 0\<rparr>,
      \<lparr>destinationIndex = 7, originIndex = 0\<rparr>,
      \<lparr>destinationIndex = 1, originIndex = 2\<rparr>,
      \<lparr>destinationIndex = 4, originIndex = 2\<rparr>,
      \<lparr>destinationIndex = 7, originIndex = 2\<rparr>,
      \<lparr>destinationIndex = 1, originIndex = 3\<rparr>,
      \<lparr>destinationIndex = 4, originIndex = 3\<rparr>,
      \<lparr>destinationIndex = 7, originIndex = 3\<rparr>,
      \<lparr>destinationIndex = 1, originIndex = 5\<rparr>,
      \<lparr>destinationIndex = 4, originIndex = 5\<rparr>,
      \<lparr>destinationIndex = 7, originIndex = 5\<rparr>,
      \<lparr>destinationIndex = 1, originIndex = 6\<rparr>,
      \<lparr>destinationIndex = 4, originIndex = 6\<rparr>,
      \<lparr>destinationIndex = 7, originIndex = 6\<rparr>
    ]\<rparr>"

section \<open>The graph database\<close>

text \<open>
  The content of the neo4j database is a property graph: a list of vertices, each with its
  label and its properties, and a list of typed relationships between positions of that
  list. The populating script gives every vertex one label, a \<open>ConceptId\<close> and a
  \<open>Name\<close>, and a variable its \<open>DataType\<close>; the model has these vertices only. Errors
  of the JavaScript side and of the database are values.
\<close>

datatype error = Neo4jError string | TypeError string

datatype label = CollectionLabel | VariableLabel

datatype relType = HASVARIABLE | REQUIRES

record vertex =
  vLabel :: label
  vConceptId :: string
  vName :: string
  vDataType :: "string option"

record relationship =
  relType :: relType
  origin :: nat
  destination :: nat

record graph =
  vertices :: "vertex list"
  relationships :: "relationship list"

definition emptyGraph :: graph where
  "emptyGraph = \<lparr>vertices = [], relationships = []\<rparr>"

subsection \<open>Populating the graph\<close>

text \<open>
  \<open>getCollectionQueryString\<close> builds the text of one Cypher \<open>CREATE\<close> statement. The
  model keeps the statement as the list of its comma-separated patterns instead of the
  text: a vertex pattern binds an identifier to a new vertex, an edge pattern names the
  identifiers of its two ends.
\<close>

datatype pattern =
  VertexPattern string vertex
  | EdgePattern string relType string

definition getVariableLabel :: "string \<Rightarrow> string" where
  "getVariableLabel variableName =
     map (\<lambda>c. if c = CHR ''/'' then CHR ''_'' else c)
       (case variableName of [] \<Rightarrow> [] | c # cs \<Rightarrow> if c = CHR ''/'' then cs else c # cs)"

definition buildVariableVertex :: "Variable \<Rightarrow> pattern" where
  "buildVariableVertex variable =
     VertexPattern (getVariableLabel (name variable))
       \<lparr>vLabel = VariableLabel, vConceptId = conceptId variable, vName = name variable,
        vDataType = Some (dataType variable)\<rparr>"

definition buildHasVariableEdge :: "string \<Rightarrow> Variable \<Rightarrow> pattern" where
  "buildHasVariableEdge collectionName' variable =
     EdgePattern collectionName' HASVARIABLE (getVariableLabel (name variable))"

definition buildRequiresEdge :: "Variable \<Rightarrow> Variable \<Rightarrow> pattern" where
  "buildRequiresEdge origin' destination' =
     EdgePattern (getVariableLabel (name origin')) REQUIRES (getVariableLabel (name destination'))"

text \<open>
  Reading \<open>collection.variables[i]\<close> out of range gives \<open>undefined\<close>, and
  \<open>buildRequiresEdge\<close> then raises a TypeError on its \<open>name\<close>.
\<close>

definition requiresEdgeOf :: "Collection \<Rightarrow> VariableEdge \<Rightarrow> error + pattern" where
  "requiresEdgeOf collection variableEdge =
     (if originIndex variableEdge < length (collectionVariables collection)
         \<and> destinationIndex variableEdge < length (collectionVariables collection)
      then Inr (buildRequiresEdge (collectionVariables collection ! originIndex variableEdge)
                  (collectionVariables collection ! destinationIndex variableEdge))
      else Inl (TypeError ''Cannot read properties of undefined (reading name)''))"

fun sequence :: "(error + 'a) list \<Rightarrow> error + 'a list" where
  "sequence [] = Inr []"
| "sequence (Inl e # rest) = Inl e"
| "sequence (Inr x # rest) = (case sequence rest of Inl e \<Rightarrow> Inl e | Inr xs \<Rightarrow> Inr (x # xs))"

definition getCollectionQueryString :: "Collection \<Rightarrow> error + pattern list" where
  "getCollectionQueryString collection =
     (let collectionVertex = VertexPattern (collectionName collection)
            \<lparr>vLabel = CollectionLabel, vConceptId = collectionConceptId collection,
             vName = collectionName collection, vDataType = None\<rparr>;
          variableVertices = map buildVariableVertex (collectionVariables collection);
          collectionEdges = map (buildHasVariableEdge (collectionName collection)) (collectionVariables collection)
      in case sequence (map (requiresEdgeOf collection) (variableEdges collection)) of
           Inl e \<Rightarrow> Inl e
         | Inr variableEdges' \<Rightarrow>
             Inr ([collectionVertex] @ variableVertices @ collectionEdges @ variableEdges'))"

text \<open>
  What neo4j does with a \<open>CREATE\<close> statement, pattern by pattern. The identifiers bound so
  far are kept with the position of their vertex. A vertex pattern with labels and
  properties whose identifier is bound already is refused by neo4j; an edge pattern
  between bound identifiers adds one relationship. An edge pattern with an unbound
  identifier does not occur in the statements built above (every identifier of an edge is
  the identifier of a vertex pattern before it); the model refuses it. The names of the
  collections and of the variables are taken to give identifiers and string literals that
  Cypher reads as such, as those of the two collections do.
\<close>

fun cypherCreate :: "pattern list \<Rightarrow> (string \<times> nat) list \<Rightarrow> graph \<Rightarrow> error + graph" where
  "cypherCreate [] bound g = Inr g"
| "cypherCreate (VertexPattern ident v # rest) bound g =
     (case map_of bound ident of
        Some _ \<Rightarrow> Inl (Neo4jError ''Variable already declared'')
      | None \<Rightarrow> cypherCreate rest ((ident, length (vertices g)) # bound)
                  (g\<lparr>vertices := vertices g @ [v]\<rparr>))"
| "cypherCreate (EdgePattern a t b # rest) bound g =
     (case (map_of bound a, map_of bound b) of
        (Some i, Some j) \<Rightarrow>
          cypherCreate rest bound
            (g\<lparr>relationships := relationships g @ [\<lparr>relType = t, origin = i, destination = j\<rparr>]\<rparr>)
      | _ \<Rightarrow> Inl (Neo4jError ''Variable not defined''))"

text \<open>
  \<open>populateDatabase\<close> runs in one transaction: it removes every vertex and relationship,
  creates RSSMIF16D, then ATL08, and commits; on any error it rolls back to the content
  the database had before. \<open>populateWith\<close> is the same transaction for any list of
  collections.
\<close>

fun createAll :: "Collection list \<Rightarrow> graph \<Rightarrow> error + graph" where
  "createAll [] g = Inr g"
| "createAll (collection # rest) g =
     (case getCollectionQueryString collection of
        Inl e \<Rightarrow> Inl e
      | Inr statement \<Rightarrow>
          (case cypherCreate statement [] g of
             Inl e \<Rightarrow> Inl e
           | Inr g' \<Rightarrow> createAll rest g'))"

definition populateWith :: "Collection list \<Rightarrow> graph \<Rightarrow> graph" where
  "populateWith collections previous =
     (case createAll collections emptyGraph of Inl e \<Rightarrow> previous | Inr g \<Rightarrow> g)"

definition populateDatabase :: "graph \<Rightarrow> graph" where
  "populateDatabase previous = populateWith [rssmif16d, atl08] previous"

subsection \<open>The query for the required variables\<close>

text \<open>
  The Cypher text of \<open>requiredVariableQuery\<close> is
  \<^verbatim>\<open>MATCH (requestedVariable:Variable)-[:REQUIRES *1..]->(requiredVariable)
  WHERE requestedVariable.ConceptId IN $requestedVariableConceptIds
  RETURN DISTINCT requiredVariable.ConceptId AS ConceptId, requiredVariable.Name as Name\<close>

  The model is what Cypher defines for this text on the content of a database. A
  variable-length pattern \<open>*1..\<close> matches every directed path of one or more
  \<open>REQUIRES\<close> relationships in which no relationship occurs twice (a vertex may occur
  again). \<open>trails g used v\<close> lists these paths, as lists of positions of relationships,
  that extend the path \<open>used\<close> from its end \<open>v\<close>; the number of relationships not
  yet used decreases, which is its termination.
\<close>

function trails :: "graph \<Rightarrow> nat list \<Rightarrow> nat \<Rightarrow> nat list list" where
  "trails g used v =
     concat (map (\<lambda>r.
         if r \<notin> set used \<and> relType (relationships g ! r) = REQUIRES
            \<and> origin (relationships g ! r) = v
         then (used @ [r]) # trails g (used @ [r]) (destination (relationships g ! r))
         else [])
       [0..<length (relationships g)])"
  by pat_completeness auto
termination
proof (relation "measure (\<lambda>(g, used, v). card ({..<length (relationships g)} - set used))")
  show "wf (measure (\<lambda>(g, used, v). card ({..<length (relationships g)} - set used)))"
    by simp
next
  fix g :: graph and used :: "nat list" and v r :: nat
  assume r: "r \<in> set [0..<length (relationships g)]"
    and c: "r \<notin> set used \<and> relType (relationships g ! r) = REQUIRES \<and> origin (relationships g ! r) = v"
  have "{..<length (relationships g)} - set (used @ [r])
          \<subset> {..<length (relationships g)} - set used"
    using r c by auto
  then have "card ({..<length (relationships g)} - set (used @ [r]))
               < card ({..<length (relationships g)} - set used)"
    by (intro psubset_card_mono) simp_all
  then show "((g, used @ [r], destination (relationships g ! r)), (g, used, v))
          \<in> measure (\<lambda>(g, used, v). card ({..<length (relationships g)} - set used))"
    by simp
qed

declare trails.simps [simp del]

text \<open>The end of a path: the destination of its last relationship.\<close>

definition pathEnd :: "graph \<Rightarrow> nat list \<Rightarrow> nat" where
  "pathEnd g p = destination (relationships g ! last p)"

text \<open>
  The rows of the \<open>MATCH\<close>: a vertex labelled \<open>Variable\<close>, and the vertex at the end of a
  path from it. A relationship of a graph database ends in a vertex of the database; a
  position beyond the vertex list gives no row.
\<close>

definition matchRequires :: "graph \<Rightarrow> (nat \<times> nat) list" where
  "matchRequires g =
     concat (map (\<lambda>i.
         if vLabel (vertices g ! i) = VariableLabel
         then filter (\<lambda>(i, j). j < length (vertices g))
                (map (\<lambda>p. (i, pathEnd g p)) (trails g [] i))
         else [])
       [0..<length (vertices g)])"

text \<open>
  A record of the query result, with the keys of the \<open>RETURN\<close> clause. \<open>WHERE\<close> keeps
  the rows whose first vertex has a requested concept id, \<open>RETURN DISTINCT\<close> gives each
  pair of concept id and name once. Cypher fixes no order of the records; the statements
  below depend on none.
\<close>

record queryRecord =
  ConceptId :: string
  Name :: string

definition requiredVariableQuery :: "graph \<Rightarrow> string list \<Rightarrow> queryRecord list" where
  "requiredVariableQuery g requestedVariableConceptIds =
     remdups
       (map (\<lambda>(i, j). \<lparr>ConceptId = vConceptId (vertices g ! j), Name = vName (vertices g ! j)\<rparr>)
          (filter (\<lambda>(i, j). vConceptId (vertices g ! i) \<in> set requestedVariableConceptIds)
             (matchRequires g)))"

section \<open>Required variables\<close>

text \<open>
  A \<open>CmrUmmVariable\<close> as this module reads and builds it: \<open>meta['concept-id']\<close> and
  \<open>umm.Name\<close>. A \<open>VariableInfo\<close> has an optional \<open>variables\<close> property: \<open>None\<close> is
  an entry without it, \<open>Some\<close> an entry that has it, with its array.
\<close>

record CmrUmmVariable =
  meta_concept_id :: string
  umm_Name :: string

record VariableInfo =
  collectionId :: string
  variables :: "CmrUmmVariable list option"

text \<open>
  The neo4j server, as the module sees it. Every call of \<open>getRequiredVariables\<close> makes
  a driver and a session of its own from the environment (\<open>getNeo4jDriver\<close>,
  \<open>getNeo4jSession\<close>; nothing is sent to the server before \<open>run\<close>); they are numbered
  by the queries sent before.
  \<open>run\<close> is the outcome of \<open>session.run\<close> for a query and its parameter: the
  promise is rejected with an error or resolved with the records. \<open>sessionClose\<close> and
  \<open>driverClose\<close> are the outcomes of \<open>session.close()\<close> and \<open>driver.close()\<close>:
  \<open>Some\<close> error when the promise is rejected. A query is given by what it returns on
  the content of a database.
\<close>

type_synonym cypherQuery = "graph \<Rightarrow> string list \<Rightarrow> queryRecord list"

record neo4j =
  run :: "nat \<Rightarrow> cypherQuery \<Rightarrow> string list \<Rightarrow> error + queryRecord list"
  sessionClose :: "nat \<Rightarrow> error option"
  driverClose :: "nat \<Rightarrow> error option"

text \<open>A server that holds the graph \<open>g\<close> and answers every query.\<close>

definition graphStore :: "graph \<Rightarrow> neo4j" where
  "graphStore g =
     \<lparr>run = (\<lambda>session queryString queryParameters. Inr (queryString g queryParameters)),
      sessionClose = (\<lambda>session. None),
      driverClose = (\<lambda>driver. None)\<rparr>"

text \<open>
  The state the module works on: the arrays of \<open>VariableInfo\<close> by reference (the caller
  keeps the reference of the array it passes, so a mutation is seen by the caller also
  when the call ends in an error), the parameters of the queries sent so far, and what
  was written with \<open>console.log\<close>.
\<close>

type_synonym ref = nat

record state =
  heap :: "ref \<Rightarrow> VariableInfo list"
  queries :: "string list list"
  console :: "error list"

text \<open>
  \<open>performCypherQuery\<close>: the promise chain \<open>run\<close>, \<open>then\<close>, \<open>catch\<close>, \<open>finally\<close>.
  The \<open>catch\<close> handler logs the error and returns what \<open>console.log\<close> returns,
  \<open>undefined\<close>: the value \<open>None\<close>. A rejected \<open>session.close()\<close> in \<open>finally\<close>
  rejects the whole chain.
\<close>

definition performCypherQuery ::
  "neo4j \<Rightarrow> nat \<Rightarrow> cypherQuery \<Rightarrow> string list \<Rightarrow> (queryRecord list \<Rightarrow> CmrUmmVariable list)
     \<Rightarrow> state \<Rightarrow> (error + CmrUmmVariable list option) \<times> state" where
  "performCypherQuery db session queryString queryParameters resultsCallback s =
     (let s1 = s\<lparr>queries := queries s @ [queryParameters]\<rparr>;
          (caught, s2) =
            (case run db session queryString queryParameters of
               Inr results \<Rightarrow> (Some (resultsCallback results), s1)
             | Inl error \<Rightarrow> (None, s1\<lparr>console := console s1 @ [error]\<rparr>))
      in case sessionClose db session of
           Some error \<Rightarrow> (Inl error, s2)
         | None \<Rightarrow> (Inr caught, s2))"

definition extractVariableResults :: "queryRecord list \<Rightarrow> CmrUmmVariable list" where
  "extractVariableResults result =
     map (\<lambda>record. \<lparr>meta_concept_id = ConceptId record, umm_Name = Name record\<rparr>) result"

definition getRequiredVariables ::
  "neo4j \<Rightarrow> string list \<Rightarrow> state \<Rightarrow> (error + CmrUmmVariable list option) \<times> state" where
  "getRequiredVariables db requestedVariableConceptIds s =
     (let driver = length (queries s) in
      case performCypherQuery db driver requiredVariableQuery requestedVariableConceptIds
             extractVariableResults s of
        (Inl error, s') \<Rightarrow> (Inl error, s')
      | (Inr requiredVariables, s') \<Rightarrow>
          (case driverClose db driver of
             Some error \<Rightarrow> (Inl error, s')
           | None \<Rightarrow> (Inr requiredVariables, s')))"

text \<open>
  The body of \<open>requiredVariables.forEach\<close>: a variable is pushed unless some variable of
  the array, as it is at that moment, has its concept id.
\<close>

fun forEachPush :: "CmrUmmVariable list \<Rightarrow> CmrUmmVariable list \<Rightarrow> CmrUmmVariable list" where
  "forEachPush requested [] = requested"
| "forEachPush requested (variable # rest) =
     forEachPush
       (if \<not> list_ex (\<lambda>requestedVariable. meta_concept_id requestedVariable = meta_concept_id variable)
                requested
        then requested @ [variable] else requested)
       rest"

text \<open>
  The loop of \<open>addRequiredVariables\<close> over the positions of the array at \<open>varInfos\<close>.
  \<open>forEach\<close> of \<open>undefined\<close> raises a TypeError. An entry is mutated in place, so the
  array keeps what was pushed before an error.
\<close>

fun addRequiredLoop :: "neo4j \<Rightarrow> ref \<Rightarrow> nat list \<Rightarrow> state \<Rightarrow> (error + unit) \<times> state" where
  "addRequiredLoop db varInfos [] s = (Inr (), s)"
| "addRequiredLoop db varInfos (i # rest) s =
     (let varInfo = heap s varInfos ! i in
      case variables varInfo of
        None \<Rightarrow> addRequiredLoop db varInfos rest s
      | Some requested \<Rightarrow>
          (case getRequiredVariables db (map meta_concept_id requested) s of
             (Inl error, s') \<Rightarrow> (Inl error, s')
           | (Inr None, s') \<Rightarrow>
               (Inl (TypeError ''Cannot read properties of undefined (reading forEach)''), s')
           | (Inr (Some requiredVariables), s') \<Rightarrow>
               addRequiredLoop db varInfos rest
                 (s'\<lparr>heap := (heap s')(varInfos :=
                     (heap s' varInfos)[i := varInfo\<lparr>variables :=
                        Some (forEachPush requested requiredVariables)\<rparr>])\<rparr>)))"

definition addRequiredVariables :: "neo4j \<Rightarrow> ref \<Rightarrow> state \<Rightarrow> (error + ref) \<times> state" where
  "addRequiredVariables db varInfos s =
     (case addRequiredLoop db varInfos [0..<length (heap s varInfos)] s of
        (Inl error, s') \<Rightarrow> (Inl error, s')
      | (Inr _, s') \<Rightarrow> (Inr varInfos, s'))"

section \<open>Notions of the statements\<close>

text \<open>
  \<open>requiresRel g\<close> is the relation "requires" between positions of vertices: the pairs
  of origin and destination of the \<open>REQUIRES\<close> relationships. \<open>seedVertices\<close> are the
  vertices a list of requested concept ids selects: those labelled \<open>Variable\<close> whose
  concept id is in the list. \<open>recordOf g j\<close> is the record the query returns for the
  vertex at position \<open>j\<close>.
\<close>

definition requiresRel :: "graph \<Rightarrow> (nat \<times> nat) set" where
  "requiresRel g =
     set (map (\<lambda>r. (origin r, destination r))
            (filter (\<lambda>r. relType r = REQUIRES) (relationships g)))"

definition seedVertices :: "graph \<Rightarrow> string list \<Rightarrow> nat set" where
  "seedVertices g requestedVariableConceptIds =
     {i. i < length (vertices g) \<and> vLabel (vertices g ! i) = VariableLabel
         \<and> vConceptId (vertices g ! i) \<in> set requestedVariableConceptIds}"

definition recordOf :: "graph \<Rightarrow> nat \<Rightarrow> queryRecord" where
  "recordOf g j = \<lparr>ConceptId = vConceptId (vertices g ! j), Name = vName (vertices g ! j)\<rparr>"

text \<open>
  \<open>isPath g v p\<close>: the relationships at the positions \<open>p\<close> are \<open>REQUIRES\<close>
  relationships that follow each other from the vertex \<open>v\<close>; \<open>endOf g v p\<close> is the
  vertex where they end.
\<close>

fun isPath :: "graph \<Rightarrow> nat \<Rightarrow> nat list \<Rightarrow> bool" where
  "isPath g v [] = True"
| "isPath g v (r # p) =
     (r < length (relationships g) \<and> relType (relationships g ! r) = REQUIRES
      \<and> origin (relationships g ! r) = v \<and> isPath g (destination (relationships g ! r)) p)"

fun endOf :: "graph \<Rightarrow> nat \<Rightarrow> nat list \<Rightarrow> nat" where
  "endOf g v [] = v"
| "endOf g v (r # p) = endOf g (destination (relationships g ! r)) p"

text \<open>
  What the loop of \<open>addRequiredVariables\<close> makes of one entry when the server holds
  the graph \<open>g\<close> and answers.
\<close>

definition augmentFrom :: "graph \<Rightarrow> VariableInfo \<Rightarrow> VariableInfo" where
  "augmentFrom g varInfo =
     (case variables varInfo of
        None \<Rightarrow> varInfo
      | Some requested \<Rightarrow>
          varInfo\<lparr>variables := Some (forEachPush requested
            (extractVariableResults (requiredVariableQuery g (map meta_concept_id requested))))\<rparr>)"

section \<open>Example data\<close>

text \<open>
  Two variables that require each other, a variable that requires itself, and the
  databases populated with them; the two variables as a request names them.
\<close>

definition cycleAB :: Collection where
  "cycleAB = \<lparr>
    collectionConceptId = ''C1'',
    collectionName = ''CYCLE'',
    collectionVariables = [
      \<lparr>conceptId = ''VA'', dataType = ''float32'', name = ''/a''\<rparr>,
      \<lparr>conceptId = ''VB'', dataType = ''float32'', name = ''/b''\<rparr>
    ],
    variableEdges = [
      \<lparr>destinationIndex = 1, originIndex = 0\<rparr>,
      \<lparr>destinationIndex = 0, originIndex = 1\<rparr>
    ]\<rparr>"

definition cycleGraph :: graph where
  "cycleGraph = populateWith [cycleAB] emptyGraph"

definition selfLoop :: Collection where
  "selfLoop = \<lparr>
    collectionConceptId = ''C2'',
    collectionName = ''LOOP'',
    collectionVariables = [\<lparr>conceptId = ''VA'', dataType = ''float32'', name = ''/a''\<rparr>],
    variableEdges = [\<lparr>destinationIndex = 0, originIndex = 0\<rparr>]\<rparr>"

definition selfLoopGraph :: graph where
  "selfLoopGraph = populateWith [selfLoop] emptyGraph"

definition varA :: CmrUmmVariable where
  "varA = \<lparr>meta_concept_id = ''VA'', umm_Name = ''/a''\<rparr>"

definition varB :: CmrUmmVariable where
  "varB = \<lparr>meta_concept_id = ''VB'', umm_Name = ''/b''\<rparr>"

text \<open>
  A server that cannot be reached; a server that answers its first \<open>n\<close> queries from
  a graph and fails afterwards; the state of a request whose array is at reference 0, before
  any query.
\<close>

definition unreachable :: neo4j where
  "unreachable =
     \<lparr>run = (\<lambda>session queryString queryParameters. Inl (Neo4jError ''ServiceUnavailable'')),
      sessionClose = (\<lambda>session. None),
      driverClose = (\<lambda>driver. None)\<rparr>"

definition failsAfter :: "nat \<Rightarrow> graph \<Rightarrow> neo4j" where
  "failsAfter n g =
     \<lparr>run = (\<lambda>session queryString queryParameters.
         if session < n then Inr (queryString g queryParameters)
         else Inl (Neo4jError ''ServiceUnavailable'')),
      sessionClose = (\<lambda>session. None),
      driverClose = (\<lambda>driver. None)\<rparr>"

definition requestState :: "VariableInfo list \<Rightarrow> state" where
  "requestState varInfos = \<lparr>heap = (\<lambda>r. if r = 0 then varInfos else []), queries = [], console = []\<rparr>"

text \<open>
  The variables of ATL08 as the request names them: \<open>atl08P k\<close> is the variable at
  position \<open>k\<close> of the collection, with its concept id and its name.
\<close>

definition atl08P :: "nat \<Rightarrow> CmrUmmVariable" where
  "atl08P k = \<lparr>meta_concept_id = conceptId (collectionVariables atl08 ! k),
                umm_Name = name (collectionVariables atl08 ! k)\<rparr>"

text \<open>
  The content of the database after \<open>populateDatabase\<close>, written out (the lemma
  \<open>populateDatabase_content\<close> below computes it from the two collections).
\<close>

definition populatedContent :: graph where
  "populatedContent =
    \<lparr>vertices =
      [\<lparr>vLabel = CollectionLabel, vConceptId = ''C1238392622-EEDTEST'', vName = ''RSSMIF16D'', vDataType = None\<rparr>,
       \<lparr>vLabel = VariableLabel, vConceptId = ''V1238395074-EEDTEST'', vName = ''atmosphere_water_vapor_content'', vDataType = Some ''int16''\<rparr>,
       \<lparr>vLabel = VariableLabel, vConceptId = ''V1238395076-EEDTEST'', vName = ''latitude'', vDataType = Some ''float32''\<rparr>,
       \<lparr>vLabel = VariableLabel, vConceptId = ''V1238395077-EEDTEST'', vName = ''rainfall_rate'', vDataType = Some ''int16''\<rparr>,
       \<lparr>vLabel = VariableLabel, vConceptId = ''V1238395078-EEDTEST'', vName = ''atmosphere_cloud_liquid_water_content'', vDataType = Some ''int16''\<rparr>,
       \<lparr>vLabel = VariableLabel, vConceptId = ''V1238395080-EEDTEST'', vName = ''longitude'', vDataType = Some ''float32''\<rparr>,
       \<lparr>vLabel = VariableLabel, vConceptId = ''V1238395084-EEDTEST'', vName = ''sst_dtime'', vDataType = Some ''int16''\<rparr>,
       \<lparr>vLabel = VariableLabel, vConceptId = ''V1238395085-EEDTEST'', vName = ''wind_speed'', vDataType = Some ''int16''\<rparr>,
       \<lparr>vLabel = VariableLabel, vConceptId = ''V1238395086-EEDTEST'', vName = ''time'', vDataType = Some ''int16''\<rparr>,
       \<lparr>vLabel = CollectionLabel, vConceptId = ''C1234714698-EEDTEST'', vName = ''ATL08'', vDataType = None\<rparr>,
       \<lparr>vLabel = VariableLabel, vConceptId = ''V1237330160-EEDTEST'', vName = ''/gt1l/signal_photons/classed_pc_flag'', vDataType = Some ''int16''\<rparr>,
       \<lparr>vLabel = VariableLabel, vConceptId = ''V1237330281-EEDTEST'', vName = ''/gt1l/land_segments/dem_h'', vDataType = Some ''float32''\<rparr>,
       \<lparr>vLabel = VariableLabel, vConceptId = ''V1237332028-EEDTEST'', vName = ''/gt1l/land_segments/canopy/h_canopy'', vDataType = Some ''float32''\<rparr>,
       \<lparr>vLabel = VariableLabel, vConceptId = ''V1237332356-EEDTEST'', vName = ''/gt1l/land_segments/latitude'', vDataType = Some ''float32''\<rparr>,
       \<lparr>vLabel = VariableLabel, vConceptId = ''V1237332501-EEDTEST'', vName = ''/gt1l/land_segments/longitude'', vDataType = Some ''float32''\<rparr>,
       \<lparr>vLabel = VariableLabel, vConceptId = ''V1240989290-EEDTEST'', vName = ''/gt1l/signal_photons/delta_time'', vDataType = Some ''float64''\<rparr>,
       \<lparr>vLabel = VariableLabel, vConceptId = ''V1240989293-EEDTEST'', vName = ''/gt1l/signal_photons/classed_pc_indx'', vDataType = Some ''int32''\<rparr>,
       \<lparr>vLabel = VariableLabel, vConceptId = ''V1240989295-EEDTEST'', vName = ''/gt1l/signal_photons/d_flag'', vDataType = Some ''int8''\<rparr>,
       \<lparr>vLabel = VariableLabel, vConceptId = ''V1240989297-EEDTEST'', vName = ''/gt1l/signal_photons/ph_segment_id'', vDataType = Some ''int32''\<rparr>,
       \<lparr>vLabel = VariableLabel, vConceptId = ''V1240989299-EEDTEST'', vName = ''/gt1l/land_segments/delta_time'', vDataType = Some ''float64''\<rparr>,
       \<lparr>vLabel = VariableLabel, vConceptId = ''V1240989301-EEDTEST'', vName = ''/gt1l/land_segments/ph_ndx_beg'', vDataType = Some ''int32''\<rparr>,
       \<lparr>vLabel = VariableLabel, vConceptId = ''V1240989303-EEDTEST'', vName = ''/gt1l/land_segments/n_seg_ph'', vDataType = Some ''int64''\<rparr>], 
     relationships =
       [\<lparr>relType = HASVARIABLE, origin = 0, destination = 1\<rparr>,
       \<lparr>relType = HASVARIABLE, origin = 0, destination = 2\<rparr>,
       \<lparr>relType = HASVARIABLE, origin = 0, destination = 3\<rparr>,
       \<lparr>relType = HASVARIABLE, origin = 0, destination = 4\<rparr>,
       \<lparr>relType = HASVARIABLE, origin = 0, destination = 5\<rparr>,
       \<lparr>relType = HASVARIABLE, origin = 0, destination = 6\<rparr>,
       \<lparr>relType = HASVARIABLE, origin = 0, destination = 7\<rparr>,
       \<lparr>relType = HASVARIABLE, origin = 0, destination = 8\<rparr>,
       \<lparr>relType = REQUIRES, origin = 1, destination = 2\<rparr>,
       \<lparr>relType = REQUIRES, origin = 1, destination = 5\<rparr>,
       \<lparr>relType = REQUIRES, origin = 1, destination = 8\<rparr>,
       \<lparr>relType = REQUIRES, origin = 3, destination = 2\<rparr>,
       \<lparr>relType = REQUIRES, origin = 3, destination = 5\<rparr>,
       \<lparr>relType = REQUIRES, origin = 3, destination = 8\<rparr>,
       \<lparr>relType = REQUIRES, origin = 4, destination = 2\<rparr>,
       \<lparr>relType = REQUIRES, origin = 4, destination = 5\<rparr>,
       \<lparr>relType = REQUIRES, origin = 4, destination = 8\<rparr>,
       \<lparr>relType = REQUIRES, origin = 6, destination = 2\<rparr>,
       \<lparr>relType = REQUIRES, origin = 6, destination = 5\<rparr>,
       \<lparr>relType = REQUIRES, origin = 6, destination = 8\<rparr>,
       \<lparr>relType = REQUIRES, origin = 7, destination = 2\<rparr>,
       \<lparr>relType = REQUIRES, origin = 7, destination = 5\<rparr>,
       \<lparr>relType = REQUIRES, origin = 7, destination = 8\<rparr>,
       \<lparr>relType = HASVARIABLE, origin = 9, destination = 10\<rparr>,
       \<lparr>relType = HASVARIABLE, origin = 9, destination = 11\<rparr>,
       \<lparr>relType = HASVARIABLE, origin = 9, destination = 12\<rparr>,
       \<lparr>relType = HASVARIABLE, origin = 9, destination = 13\<rparr>,
       \<lparr>relType = HASVARIABLE, origin = 9, destination = 14\<rparr>,
       \<lparr>relType = HASVARIABLE, origin = 9, destination = 15\<rparr>,
       \<lparr>relType = HASVARIABLE, origin = 9, destination = 16\<rparr>,
       \<lparr>relType = HASVARIABLE, origin = 9, destination = 17\<rparr>,
       \<lparr>relType = HASVARIABLE, origin = 9, destination = 18\<rparr>,
       \<lparr>relType = HASVARIABLE, origin = 9, destination = 19\<rparr>,
       \<lparr>relType = HASVARIABLE, origin = 9, destination = 20\<rparr>,
       \<lparr>relType = HASVARIABLE, origin = 9, destination = 21\<rparr>,
       \<lparr>relType = REQUIRES, origin = 10, destination = 15\<rparr>,
       \<lparr>relType = REQUIRES, origin = 16, destination = 15\<rparr>,
       \<lparr>relType = REQUIRES, origin = 17, destination = 15\<rparr>,
       \<lparr>relType = REQUIRES, origin = 18, destination = 15\<rparr>,
       \<lparr>relType = REQUIRES, origin = 15, destination = 20\<rparr>,
       \<lparr>relType = REQUIRES, origin = 15, destination = 21\<rparr>,
       \<lparr>relType = REQUIRES, origin = 20, destination = 13\<rparr>,
       \<lparr>relType = REQUIRES, origin = 20, destination = 14\<rparr>,
       \<lparr>relType = REQUIRES, origin = 20, destination = 19\<rparr>,
       \<lparr>relType = REQUIRES, origin = 21, destination = 13\<rparr>,
       \<lparr>relType = REQUIRES, origin = 21, destination = 14\<rparr>,
       \<lparr>relType = REQUIRES, origin = 21, destination = 19\<rparr>,
       \<lparr>relType = REQUIRES, origin = 11, destination = 13\<rparr>,
       \<lparr>relType = REQUIRES, origin = 11, destination = 14\<rparr>,
       \<lparr>relType = REQUIRES, origin = 11, destination = 19\<rparr>,
       \<lparr>relType = REQUIRES, origin = 12, destination = 13\<rparr>,
       \<lparr>relType = REQUIRES, origin = 12, destination = 14\<rparr>,
       \<lparr>relType = REQUIRES, origin = 12, destination = 19\<rparr>,
       \<lparr>relType = REQUIRES, origin = 13, destination = 19\<rparr>,
       \<lparr>relType = REQUIRES, origin = 14, destination = 19\<rparr>,
       \<lparr>relType = REQUIRES, origin = 19, destination = 13\<rparr>,
       \<lparr>relType = REQUIRES, origin = 19, destination = 14\<rparr>,
       \<lparr>relType = REQUIRES, origin = 14, destination = 13\<rparr>,
       \<lparr>relType = REQUIRES, origin = 13, destination = 14\<rparr>]\<rparr>"

text \<open>
  Two collections with concept ids of their own that share one: the variable \<open>/b\<close> of the
  first and the variable \<open>/b\<close> of the second have the concept id \<open>VB\<close>; the graph
  populated with both; the variable \<open>/c\<close> of the second as a request names it.
\<close>

definition sharedFirst :: Collection where
  "sharedFirst = \<lparr>
    collectionConceptId = ''C1'',
    collectionName = ''FIRST'',
    collectionVariables = [
      \<lparr>conceptId = ''VA'', dataType = ''float32'', name = ''/a''\<rparr>,
      \<lparr>conceptId = ''VB'', dataType = ''float32'', name = ''/b''\<rparr>
    ],
    variableEdges = [\<lparr>destinationIndex = 1, originIndex = 0\<rparr>]\<rparr>"

definition sharedSecond :: Collection where
  "sharedSecond = \<lparr>
    collectionConceptId = ''C2'',
    collectionName = ''SECOND'',
    collectionVariables = [
      \<lparr>conceptId = ''VB'', dataType = ''float32'', name = ''/b''\<rparr>,
      \<lparr>conceptId = ''VC'', dataType = ''float32'', name = ''/c''\<rparr>
    ],
    variableEdges = [\<lparr>destinationIndex = 1, originIndex = 0\<rparr>]\<rparr>"

definition sharedGraph :: graph where
  "sharedGraph = populateWith [sharedFirst, sharedSecond] emptyGraph"

definition varC :: CmrUmmVariable where
  "varC = \<lparr>meta_concept_id = ''VC'', umm_Name = ''/c''\<rparr>"

section \<open>The paths of the query\<close>

lemma isPath_append: "isPath g v (p @ q) = (isPath g v p \<and> isPath g (endOf g v p) q)"
  by (induction p arbitrary: v) auto

lemma endOf_append: "endOf g v (p @ q) = endOf g (endOf g v p) q"
  by (induction p arbitrary: v) auto

lemma endOf_pathEnd: "p \<noteq> [] \<Longrightarrow> endOf g v p = pathEnd g p"
  by (induction p arbitrary: v) (auto simp: pathEnd_def)

lemma trails_set:
  "set (trails g used v) =
     {used @ p | p. p \<noteq> [] \<and> isPath g v p \<and> distinct p \<and> set p \<inter> set used = {}}"
proof (induction g used v rule: trails.induct)
  case (1 g used v)
  show ?case
  proof (intro set_eqI iffI)
    fix x
    assume "x \<in> set (trails g used v)"
    then obtain r where r: "r < length (relationships g)" "r \<notin> set used"
        "relType (relationships g ! r) = REQUIRES" "origin (relationships g ! r) = v"
      and x: "x = used @ [r] \<or> x \<in> set (trails g (used @ [r]) (destination (relationships g ! r)))"
      by (subst (asm) trails.simps) (auto split: if_splits)
    from x show "x \<in> {used @ p | p. p \<noteq> [] \<and> isPath g v p \<and> distinct p \<and> set p \<inter> set used = {}}"
    proof
      assume "x = used @ [r]"
      then show ?thesis using r by (auto intro!: exI[of _ "[r]"])
    next
      assume "x \<in> set (trails g (used @ [r]) (destination (relationships g ! r)))"
      then obtain p where p: "x = (used @ [r]) @ p" "p \<noteq> []"
          "isPath g (destination (relationships g ! r)) p" "distinct p"
          "set p \<inter> set (used @ [r]) = {}"
        using "1.IH"[of r] r by auto
      then show ?thesis using r by (auto intro!: exI[of _ "r # p"])
    qed
  next
    fix x
    assume "x \<in> {used @ p | p. p \<noteq> [] \<and> isPath g v p \<and> distinct p \<and> set p \<inter> set used = {}}"
    then obtain p where p: "x = used @ p" "p \<noteq> []" "isPath g v p" "distinct p" "set p \<inter> set used = {}"
      by auto
    then obtain r q where pq: "p = r # q" by (cases p) auto
    with p have r: "r < length (relationships g)" "r \<notin> set used"
        "relType (relationships g ! r) = REQUIRES" "origin (relationships g ! r) = v"
      by auto
    have "x = used @ [r] \<or> x \<in> set (trails g (used @ [r]) (destination (relationships g ! r)))"
    proof (cases "q = []")
      case True
      then show ?thesis using p pq by simp
    next
      case False
      have "x \<in> {(used @ [r]) @ p' | p'. p' \<noteq> [] \<and> isPath g (destination (relationships g ! r)) p'
                 \<and> distinct p' \<and> set p' \<inter> set (used @ [r]) = {}}"
        using False p pq by (auto intro!: exI[of _ q])
      then show ?thesis using "1.IH"[of r] r by auto
    qed
    then show "x \<in> set (trails g used v)"
      using r by (subst trails.simps) (auto intro!: bexI[of _ r])
  qed
qed

lemma requiresRel_iff:
  "(v, w) \<in> requiresRel g \<longleftrightarrow>
     (\<exists>r < length (relationships g). relType (relationships g ! r) = REQUIRES
         \<and> origin (relationships g ! r) = v \<and> destination (relationships g ! r) = w)"
  by (auto simp: requiresRel_def in_set_conv_nth image_iff) 

lemma path_trancl: "p \<noteq> [] \<Longrightarrow> isPath g v p \<Longrightarrow> (v, endOf g v p) \<in> (requiresRel g)\<^sup>+"
proof (induction p arbitrary: v)
  case Nil
  then show ?case by simp
next
  case (Cons r p)
  then have e: "(v, destination (relationships g ! r)) \<in> requiresRel g"
    by (auto simp: requiresRel_iff)
  show ?case
  proof (cases "p = []")
    case True
    then show ?thesis using e by auto
  next
    case False
    then have "(destination (relationships g ! r), endOf g (destination (relationships g ! r)) p)
                 \<in> (requiresRel g)\<^sup>+"
      using Cons by auto
    then show ?thesis using e by (auto intro: trancl_into_trancl2)
  qed
qed

lemma trancl_path: "(v, w) \<in> (requiresRel g)\<^sup>+ \<Longrightarrow> \<exists>p. p \<noteq> [] \<and> isPath g v p \<and> endOf g v p = w"
proof (induction rule: trancl_induct)
  case (base y)
  then obtain r where "r < length (relationships g)" "relType (relationships g ! r) = REQUIRES"
      "origin (relationships g ! r) = v" "destination (relationships g ! r) = y"
    by (auto simp: requiresRel_iff)
  then show ?case by (intro exI[of _ "[r]"]) auto
next
  case (step y z)
  then obtain p where p: "p \<noteq> []" "isPath g v p" "endOf g v p = y" by auto
  from step obtain r where "r < length (relationships g)" "relType (relationships g ! r) = REQUIRES"
      "origin (relationships g ! r) = y" "destination (relationships g ! r) = z"
    by (auto simp: requiresRel_iff)
  with p show ?case 
    by (intro exI[of _ "p @ [r]"]) (auto simp: isPath_append endOf_append)
qed

lemma shorten_path:
  "p \<noteq> [] \<Longrightarrow> isPath g v p \<Longrightarrow>
     \<exists>q. q \<noteq> [] \<and> isPath g v q \<and> endOf g v q = endOf g v p \<and> distinct q"
proof (induction "length p" arbitrary: p rule: less_induct)
  case less
  show ?case
  proof (cases "distinct p")
    case True
    with less.prems show ?thesis by blast
  next
    case False
    then obtain xs ys zs r where p: "p = xs @ [r] @ ys @ [r] @ zs"
      using not_distinct_decomp by blast
    let ?q = "xs @ [r] @ zs"
    have "isPath g v ?q \<and> endOf g v ?q = endOf g v p"
      using less.prems(2) unfolding p by (auto simp: isPath_append endOf_append)
    moreover have "length ?q < length p" "?q \<noteq> []" unfolding p by auto
    ultimately show ?thesis using less.hyps[of ?q] by auto
  qed
qed

lemma trails_ends:
  "pathEnd g ` set (trails g [] v) = {w. (v, w) \<in> (requiresRel g)\<^sup>+}"
proof (intro set_eqI iffI)
  fix w
  assume "w \<in> pathEnd g ` set (trails g [] v)"
  then obtain p where "p \<noteq> []" "isPath g v p" "w = pathEnd g p"
    by (auto simp: trails_set)
  then show "w \<in> {w. (v, w) \<in> (requiresRel g)\<^sup>+}"
    using path_trancl[of p g v] by (simp add: endOf_pathEnd)
next
  fix w
  assume "w \<in> {w. (v, w) \<in> (requiresRel g)\<^sup>+}"
  then obtain p where "p \<noteq> []" "isPath g v p" "endOf g v p = w"
    using trancl_path by blast
  then obtain q where q: "q \<noteq> []" "isPath g v q" "endOf g v q = w" "distinct q"
    using shorten_path[of p g v] by auto
  then have "q \<in> set (trails g [] v)" by (simp add: trails_set)
  moreover have "pathEnd g q = w" using q endOf_pathEnd[of q g v] by simp
  ultimately show "w \<in> pathEnd g ` set (trails g [] v)" by blast
qed

lemma matchRequires_set:
  "set (matchRequires g) =
     {(i, j). i < length (vertices g) \<and> j < length (vertices g)
        \<and> vLabel (vertices g ! i) = VariableLabel \<and> (i, j) \<in> (requiresRel g)\<^sup>+}"
proof -
  have "\<And>i j. (i, j) \<in> (\<lambda>p. (i, pathEnd g p)) ` set (trails g [] i) \<longleftrightarrow> (i, j) \<in> (requiresRel g)\<^sup>+"
    using trails_ends[of g] by (auto simp: image_iff set_eq_iff)
  then show ?thesis
    unfolding matchRequires_def by (auto split: if_splits)
qed

lemma requiredVariableQuery_set:
  "set (requiredVariableQuery g ids) =
     {\<lparr>ConceptId = vConceptId (vertices g ! j), Name = vName (vertices g ! j)\<rparr> | i j.
        i < length (vertices g) \<and> j < length (vertices g)
        \<and> vLabel (vertices g ! i) = VariableLabel \<and> vConceptId (vertices g ! i) \<in> set ids
        \<and> (i, j) \<in> (requiresRel g)\<^sup>+}"
  unfolding requiredVariableQuery_def
  by (auto simp: matchRequires_set image_iff)

section \<open>The module on its own\<close>

lemma getRequiredVariables_state:
  "heap (snd (getRequiredVariables db ids s)) = heap s \<and>
   queries (snd (getRequiredVariables db ids s)) = queries s @ [ids]"
  by (auto simp: getRequiredVariables_def performCypherQuery_def Let_def
           split: sum.splits option.splits prod.splits)

lemma getRequiredVariables_graphStore:
  "getRequiredVariables (graphStore g) ids s =
     (Inr (Some (extractVariableResults (requiredVariableQuery g ids))),
      s\<lparr>queries := queries s @ [ids]\<rparr>)"
  by (simp add: getRequiredVariables_def performCypherQuery_def graphStore_def Let_def)

lemma getRequiredVariables_rejected:
  assumes "run db (length (queries s)) requiredVariableQuery ids = Inl e"
  shows "getRequiredVariables db ids s =
     ((case sessionClose db (length (queries s)) of
         Some e' \<Rightarrow> Inl e'
       | None \<Rightarrow> (case driverClose db (length (queries s)) of Some e' \<Rightarrow> Inl e' | None \<Rightarrow> Inr None)),
      s\<lparr>queries := queries s @ [ids], console := console s @ [e]\<rparr>)"
  using assms
  by (auto simp: getRequiredVariables_def performCypherQuery_def Let_def split: option.splits)

lemma forEachPush_noop:
  "meta_concept_id ` set closure \<subseteq> meta_concept_id ` set requested \<Longrightarrow>
     forEachPush requested closure = requested"
  by (induction closure arbitrary: requested) (auto simp: list_ex_iff image_iff)

lemma forEachPush_appends:
  "\<exists>appended. forEachPush requested closure = requested @ appended
     \<and> subseq appended closure
     \<and> distinct (map meta_concept_id appended)
     \<and> meta_concept_id ` set appended = meta_concept_id ` set closure - meta_concept_id ` set requested
     \<and> (distinct (map meta_concept_id closure) \<longrightarrow>
          appended = filter (\<lambda>v. meta_concept_id v \<notin> meta_concept_id ` set requested) closure)"
proof (induction closure arbitrary: requested)
  case Nil
  then show ?case by simp
next
  case (Cons v rest)
  show ?case
  proof (cases "meta_concept_id v \<in> meta_concept_id ` set requested")
    case True
    then have eq: "forEachPush requested (v # rest) = forEachPush requested rest"
      by (auto simp: list_ex_iff image_iff)
    from Cons[of requested] obtain appended where a:
      "forEachPush requested rest = requested @ appended" "subseq appended rest"
      "distinct (map meta_concept_id appended)"
      "meta_concept_id ` set appended = meta_concept_id ` set rest - meta_concept_id ` set requested"
      "distinct (map meta_concept_id rest) \<longrightarrow>
          appended = filter (\<lambda>v. meta_concept_id v \<notin> meta_concept_id ` set requested) rest"
      by blast
    show ?thesis
    proof (intro exI[of _ appended] conjI)
      show "forEachPush requested (v # rest) = requested @ appended" using eq a by simp
      show "subseq appended (v # rest)" using a by (auto intro: list_emb_Cons)
      show "distinct (map meta_concept_id appended)" using a by simp
      show "meta_concept_id ` set appended
              = meta_concept_id ` set (v # rest) - meta_concept_id ` set requested"
        using a True by auto
      show "distinct (map meta_concept_id (v # rest)) \<longrightarrow>
          appended = filter (\<lambda>v. meta_concept_id v \<notin> meta_concept_id ` set requested) (v # rest)"
        using a True by simp
    qed
  next
    case False
    then have eq: "forEachPush requested (v # rest) = forEachPush (requested @ [v]) rest"
      by (auto simp: list_ex_iff image_iff)
    from Cons[of "requested @ [v]"] obtain appended where a:
      "forEachPush (requested @ [v]) rest = (requested @ [v]) @ appended" "subseq appended rest"
      "distinct (map meta_concept_id appended)"
      "meta_concept_id ` set appended
         = meta_concept_id ` set rest - meta_concept_id ` set (requested @ [v])"
      "distinct (map meta_concept_id rest) \<longrightarrow>
          appended = filter (\<lambda>w. meta_concept_id w \<notin> meta_concept_id ` set (requested @ [v])) rest"
      by blast
    show ?thesis
    proof (intro exI[of _ "v # appended"] conjI)
      show "forEachPush requested (v # rest) = requested @ v # appended" using eq a by simp
      show "subseq (v # appended) (v # rest)" using a by simp
      show "distinct (map meta_concept_id (v # appended))" using a by auto
      show "meta_concept_id ` set (v # appended)
              = meta_concept_id ` set (v # rest) - meta_concept_id ` set requested"
        using a False by auto
      show "distinct (map meta_concept_id (v # rest)) \<longrightarrow>
          v # appended = filter (\<lambda>v. meta_concept_id v \<notin> meta_concept_id ` set requested) (v # rest)"
      proof
        assume d: "distinct (map meta_concept_id (v # rest))"
        then have "appended = filter (\<lambda>w. meta_concept_id w \<notin> meta_concept_id ` set (requested @ [v])) rest"
          using a by simp
        also have "\<dots> = filter (\<lambda>w. meta_concept_id w \<notin> meta_concept_id ` set requested) rest"
        proof (intro filter_cong refl)
          fix w assume "w \<in> set rest"
          then have "meta_concept_id w \<noteq> meta_concept_id v" using d by (auto simp: image_iff)
          then show "(meta_concept_id w \<notin> meta_concept_id ` set (requested @ [v]))
                   = (meta_concept_id w \<notin> meta_concept_id ` set requested)"
            by auto
        qed
        finally show "v # appended
            = filter (\<lambda>v. meta_concept_id v \<notin> meta_concept_id ` set requested) (v # rest)"
          using False by simp
      qed
    qed
  qed
qed

lemma forEachPush_count:
  "c \<in> meta_concept_id ` set requested \<Longrightarrow>
     count_list (map meta_concept_id (forEachPush requested closure)) c
       = count_list (map meta_concept_id requested) c"
proof -
  obtain appended where a: "forEachPush requested closure = requested @ appended"
    "meta_concept_id ` set appended = meta_concept_id ` set closure - meta_concept_id ` set requested"
    using forEachPush_appends[of requested closure] by blast
  assume "c \<in> meta_concept_id ` set requested"
  then have "c \<notin> set (map meta_concept_id appended)" using a(2) by auto
  then have "count_list (map meta_concept_id appended) c = 0" by (simp add: count_list_0_iff)
  then show ?thesis using a(1) by simp
qed

lemma forEachPush_distinct:
  assumes "distinct (map meta_concept_id requested)"
  shows "distinct (map meta_concept_id (forEachPush requested closure))"
proof -
  obtain appended where a: "forEachPush requested closure = requested @ appended"
    "distinct (map meta_concept_id appended)"
    "meta_concept_id ` set appended = meta_concept_id ` set closure - meta_concept_id ` set requested"
    using forEachPush_appends[of requested closure] by blast
  have "meta_concept_id ` set requested \<inter> meta_concept_id ` set appended = {}"
    using a(3) by auto
  then show ?thesis using assms a(1,2) by simp
qed

section \<open>The merge step\<close>

text \<open>
  Claim C4. The merge step (the \<open>forEach\<close> of \<open>addRequiredVariables\<close>) keeps the requested
  variables as they are and appends variables of the closure result, in the order of the
  result: the concept ids appended are exactly the concept ids of the closure result that
  no requested variable has, each once. When the concept ids of the closure result are
  distinct, the variables appended are exactly those of the closure result whose concept
  id no requested variable has. A concept id of the requested set occurs in the output as
  often as in the requested set, so a requested set without duplicates gives an output
  without duplicates.
\<close>

theorem forEachPush_appends_exactly_the_missing:
  "\<exists>appended. forEachPush requested closure = requested @ appended
     \<and> subseq appended closure
     \<and> distinct (map meta_concept_id appended)
     \<and> meta_concept_id ` set appended = meta_concept_id ` set closure - meta_concept_id ` set requested
     \<and> (distinct (map meta_concept_id closure) \<longrightarrow>
          appended = filter (\<lambda>v. meta_concept_id v \<notin> meta_concept_id ` set requested) closure)
     \<and> (\<forall>c \<in> meta_concept_id ` set requested.
          count_list (map meta_concept_id (forEachPush requested closure)) c
            = count_list (map meta_concept_id requested) c)
     \<and> (distinct (map meta_concept_id requested) \<longrightarrow>
          distinct (map meta_concept_id (forEachPush requested closure)))"
  using forEachPush_appends[of requested closure] forEachPush_count[of _ requested closure]
    forEachPush_distinct[of requested closure]
  by blast

theorem forEachPush_appends_exactly_the_missing_witness:
  "distinct (map meta_concept_id
      [\<lparr>meta_concept_id = ''V2'', umm_Name = ''latitude''\<rparr>,
       \<lparr>meta_concept_id = ''V3'', umm_Name = ''time''\<rparr>])
   \<and> distinct (map meta_concept_id
      [\<lparr>meta_concept_id = ''V1'', umm_Name = ''rainfall_rate''\<rparr>,
       \<lparr>meta_concept_id = ''V2'', umm_Name = ''latitude''\<rparr>])
   \<and> ''V2'' \<in> meta_concept_id ` set
      [\<lparr>meta_concept_id = ''V1'', umm_Name = ''rainfall_rate''\<rparr>,
       \<lparr>meta_concept_id = ''V2'', umm_Name = ''latitude''\<rparr>]
   \<and> (\<exists>appended.
        forEachPush
          [\<lparr>meta_concept_id = ''V1'', umm_Name = ''rainfall_rate''\<rparr>,
           \<lparr>meta_concept_id = ''V2'', umm_Name = ''latitude''\<rparr>]
          [\<lparr>meta_concept_id = ''V2'', umm_Name = ''latitude''\<rparr>,
           \<lparr>meta_concept_id = ''V3'', umm_Name = ''time''\<rparr>]
        = [\<lparr>meta_concept_id = ''V1'', umm_Name = ''rainfall_rate''\<rparr>,
           \<lparr>meta_concept_id = ''V2'', umm_Name = ''latitude''\<rparr>] @ appended
        \<and> appended = [\<lparr>meta_concept_id = ''V3'', umm_Name = ''time''\<rparr>])
   \<and> count_list (map meta_concept_id (forEachPush
          [\<lparr>meta_concept_id = ''V1'', umm_Name = ''rainfall_rate''\<rparr>,
           \<lparr>meta_concept_id = ''V2'', umm_Name = ''latitude''\<rparr>]
          [\<lparr>meta_concept_id = ''V2'', umm_Name = ''latitude''\<rparr>,
           \<lparr>meta_concept_id = ''V3'', umm_Name = ''time''\<rparr>])) ''V2'' = 1
   \<and> distinct (map meta_concept_id (forEachPush
          [\<lparr>meta_concept_id = ''V1'', umm_Name = ''rainfall_rate''\<rparr>,
           \<lparr>meta_concept_id = ''V2'', umm_Name = ''latitude''\<rparr>]
          [\<lparr>meta_concept_id = ''V2'', umm_Name = ''latitude''\<rparr>,
           \<lparr>meta_concept_id = ''V3'', umm_Name = ''time''\<rparr>]))"
  using forEachPush_appends_exactly_the_missing
    [of "[\<lparr>meta_concept_id = ''V1'', umm_Name = ''rainfall_rate''\<rparr>,
          \<lparr>meta_concept_id = ''V2'', umm_Name = ''latitude''\<rparr>]"
        "[\<lparr>meta_concept_id = ''V2'', umm_Name = ''latitude''\<rparr>,
          \<lparr>meta_concept_id = ''V3'', umm_Name = ''time''\<rparr>]"]
  by simp

section \<open>The loop over the entries\<close>

lemma addRequiredLoop_None:
  "variables (heap s r ! i) = None \<Longrightarrow>
     addRequiredLoop db r (i # rest) s = addRequiredLoop db r rest s"
  by (simp add: Let_def)

lemma addRequiredLoop_Some:
  assumes "variables (heap s r ! i) = Some requested"
    and "getRequiredVariables db (map meta_concept_id requested) s = (res, s1)"
  shows "addRequiredLoop db r (i # rest) s =
     (case res of
        Inl e \<Rightarrow> (Inl e, s1)
      | Inr None \<Rightarrow> (Inl (TypeError ''Cannot read properties of undefined (reading forEach)''), s1)
      | Inr (Some requiredVariables) \<Rightarrow>
          addRequiredLoop db r rest
            (s1\<lparr>heap := (heap s)(r := (heap s r)[i := (heap s r ! i)\<lparr>variables :=
                Some (forEachPush requested requiredVariables)\<rparr>])\<rparr>))"
proof -
  have "heap s1 = heap s" using getRequiredVariables_state[of db "map meta_concept_id requested" s] assms(2) by simp
  then show ?thesis using assms by (simp add: Let_def split: sum.splits option.splits)
qed

declare addRequiredLoop.simps(2) [simp del]

lemma addRequiredLoop_frame:
  "length (heap (snd (addRequiredLoop db r is s)) r) = length (heap s r)
   \<and> (\<forall>r'. r' \<noteq> r \<longrightarrow> heap (snd (addRequiredLoop db r is s)) r' = heap s r')
   \<and> (\<forall>i. i \<notin> set is \<longrightarrow> heap (snd (addRequiredLoop db r is s)) r ! i = heap s r ! i)"
proof (induction "is" arbitrary: s)
  case Nil
  then show ?case by simp
next
  case (Cons i rest)
  show ?case
  proof (cases "variables (heap s r ! i)")
    case None
    then show ?thesis using Cons[of s] by (simp add: addRequiredLoop_None)
  next
    case (Some requested)
    obtain res s1 where g: "getRequiredVariables db (map meta_concept_id requested) s = (res, s1)"
      by (cases "getRequiredVariables db (map meta_concept_id requested) s")
    have h: "heap s1 = heap s"
      using getRequiredVariables_state[of db "map meta_concept_id requested" s] g by simp
    show ?thesis
    proof (cases res)
      case (Inl e)
      then show ?thesis using h by (simp add: addRequiredLoop_Some[OF Some g])
    next
      case (Inr v)
      show ?thesis
      proof (cases v)
        case None
        then show ?thesis using h Inr by (simp add: addRequiredLoop_Some[OF Some g])
      next
        case (Some rows)
        let ?s2 = "s1\<lparr>heap := (heap s)(r := (heap s r)[i := (heap s r ! i)\<lparr>variables :=
                Some (forEachPush requested rows)\<rparr>])\<rparr>"
        have eq: "addRequiredLoop db r (i # rest) s = addRequiredLoop db r rest ?s2"
          using Inr Some by (simp add: addRequiredLoop_Some[OF \<open>variables (heap s r ! i) = Some requested\<close> g])
        show ?thesis unfolding eq using Cons[of ?s2] by simp
      qed
    qed
  qed
qed

lemma addRequiredLoop_error:
  assumes "addRequiredLoop db r is s = (Inl e, s')"
  shows "\<exists>pre post mid. is = pre @ post \<and> post \<noteq> []
           \<and> addRequiredLoop db r pre s = (Inr (), mid) \<and> heap s' = heap mid"
  using assms
proof (induction "is" arbitrary: s)
  case Nil
  then show ?case by simp
next
  case (Cons i rest)
  show ?case
  proof (cases "variables (heap s r ! i)")
    case None
    then have "addRequiredLoop db r rest s = (Inl e, s')"
      using Cons.prems by (simp add: addRequiredLoop_None)
    then obtain pre post mid where p: "rest = pre @ post" "post \<noteq> []"
        "addRequiredLoop db r pre s = (Inr (), mid)" "heap s' = heap mid"
      using Cons.IH by blast
    have "i # rest = (i # pre) @ post \<and> post \<noteq> []
           \<and> addRequiredLoop db r (i # pre) s = (Inr (), mid) \<and> heap s' = heap mid"
      using p None by (simp add: addRequiredLoop_None)
    then show ?thesis by blast
  next
    case (Some requested)
    obtain res s1 where g: "getRequiredVariables db (map meta_concept_id requested) s = (res, s1)"
      by (cases "getRequiredVariables db (map meta_concept_id requested) s")
    have h: "heap s1 = heap s"
      using getRequiredVariables_state[of db "map meta_concept_id requested" s] g by simp
    have stop: "heap s' = heap s \<Longrightarrow> ?thesis"
    proof -
      assume "heap s' = heap s"
      then have "i # rest = [] @ (i # rest) \<and> i # rest \<noteq> []
           \<and> addRequiredLoop db r [] s = (Inr (), s) \<and> heap s' = heap s"
        by simp
      then show ?thesis by blast
    qed
    show ?thesis
    proof (cases res)
      case (Inl e')
      then have "s' = s1" using Cons.prems by (simp add: addRequiredLoop_Some[OF Some g])
      then show ?thesis using h stop by simp
    next
      case (Inr v)
      show ?thesis
      proof (cases v)
        case None
        then have "s' = s1" using Cons.prems Inr by (simp add: addRequiredLoop_Some[OF Some g])
        then show ?thesis using h stop by simp
      next
        case (Some rows)
        let ?s2 = "s1\<lparr>heap := (heap s)(r := (heap s r)[i := (heap s r ! i)\<lparr>variables :=
                Some (forEachPush requested rows)\<rparr>])\<rparr>"
        have eq: "\<And>xs. addRequiredLoop db r (i # xs) s = addRequiredLoop db r xs ?s2"
          using Inr Some by (simp add: addRequiredLoop_Some[OF \<open>variables (heap s r ! i) = Some requested\<close> g])
        then have "addRequiredLoop db r rest ?s2 = (Inl e, s')" using Cons.prems by simp
        then obtain pre post mid where p: "rest = pre @ post" "post \<noteq> []"
            "addRequiredLoop db r pre ?s2 = (Inr (), mid)" "heap s' = heap mid"
          using Cons.IH by blast
        have "i # rest = (i # pre) @ post \<and> post \<noteq> []
           \<and> addRequiredLoop db r (i # pre) s = (Inr (), mid) \<and> heap s' = heap mid"
          using p eq by simp
        then show ?thesis by blast
      qed
    qed
  qed
qed

lemma addRequiredLoop_success:
  assumes "distinct is" "\<forall>i\<in>set is. i < length (heap s r)"
    and "addRequiredLoop db r is s = (Inr u, s')"
  shows "(\<forall>i\<in>set is. collectionId (heap s' r ! i) = collectionId (heap s r ! i)
            \<and> (case variables (heap s r ! i) of
                 None \<Rightarrow> heap s' r ! i = heap s r ! i
               | Some requested \<Rightarrow> (\<exists>appended. variables (heap s' r ! i) = Some (requested @ appended))))
       \<and> queries s' = queries s @ map (\<lambda>i. map meta_concept_id (the (variables (heap s r ! i))))
                          (filter (\<lambda>i. variables (heap s r ! i) \<noteq> None) is)"
  using assms
proof (induction "is" arbitrary: s)
  case Nil
  then show ?case by simp
next
  case (Cons i rest)
  have fr: "\<And>t. heap (snd (addRequiredLoop db r rest t)) r ! i = heap t r ! i"
    using addRequiredLoop_frame[of db r rest] Cons.prems(1) by simp
  show ?case
  proof (cases "variables (heap s r ! i)")
    case None
    then have l: "addRequiredLoop db r rest s = (Inr u, s')"
      using Cons.prems by (simp add: addRequiredLoop_None)
    have "heap s' r ! i = heap s r ! i" using fr[of s] l by simp
    then show ?thesis using Cons.IH[of s] Cons.prems l None by simp
  next
    case (Some requested)
    obtain res s1 where g: "getRequiredVariables db (map meta_concept_id requested) s = (res, s1)"
      by (cases "getRequiredVariables db (map meta_concept_id requested) s")
    have h: "heap s1 = heap s" "queries s1 = queries s @ [map meta_concept_id requested]"
      using getRequiredVariables_state[of db "map meta_concept_id requested" s] g by simp_all
    from Cons.prems(3) obtain rows where rows: "res = Inr (Some rows)"
      by (auto simp: addRequiredLoop_Some[OF Some g] split: sum.splits option.splits)
    let ?vi = "(heap s r ! i)\<lparr>variables := Some (forEachPush requested rows)\<rparr>"
    let ?s2 = "s1\<lparr>heap := (heap s)(r := (heap s r)[i := ?vi])\<rparr>"
    have l: "addRequiredLoop db r rest ?s2 = (Inr u, s')"
      using Cons.prems(3) rows by (simp add: addRequiredLoop_Some[OF Some g])
    have same: "\<And>j. j \<in> set rest \<Longrightarrow> heap ?s2 r ! j = heap s r ! j"
    proof -
      fix j assume "j \<in> set rest"
      then have "i \<noteq> j" using Cons.prems(1) by auto
      then show "heap ?s2 r ! j = heap s r ! j" by simp
    qed
    have ih: "(\<forall>j\<in>set rest. collectionId (heap s' r ! j) = collectionId (heap ?s2 r ! j)
            \<and> (case variables (heap ?s2 r ! j) of
                 None \<Rightarrow> heap s' r ! j = heap ?s2 r ! j
               | Some requested \<Rightarrow> (\<exists>appended. variables (heap s' r ! j) = Some (requested @ appended))))
       \<and> queries s' = queries ?s2 @ map (\<lambda>j. map meta_concept_id (the (variables (heap ?s2 r ! j))))
                          (filter (\<lambda>j. variables (heap ?s2 r ! j) \<noteq> None) rest)"
      using Cons.IH[of ?s2] Cons.prems(1,2) l by simp
    have here: "heap s' r ! i = ?vi"
      using fr[of ?s2] l Cons.prems(2) by simp
    obtain appended where "forEachPush requested rows = requested @ appended"
      using forEachPush_appends[of requested rows] by blast
    then have i: "collectionId (heap s' r ! i) = collectionId (heap s r ! i)
        \<and> (\<exists>appended. variables (heap s' r ! i) = Some (requested @ appended))"
      using here by simp
    have m: "map (\<lambda>j. map meta_concept_id (the (variables (heap ?s2 r ! j))))
                (filter (\<lambda>j. variables (heap ?s2 r ! j) \<noteq> None) rest)
           = map (\<lambda>j. map meta_concept_id (the (variables (heap s r ! j))))
                (filter (\<lambda>j. variables (heap s r ! j) \<noteq> None) rest)"
      using same by (simp cong: map_cong filter_cong)
    have "\<And>j. j \<in> set (i # rest) \<Longrightarrow>
            collectionId (heap s' r ! j) = collectionId (heap s r ! j)
            \<and> (case variables (heap s r ! j) of
                 None \<Rightarrow> heap s' r ! j = heap s r ! j
               | Some requested \<Rightarrow> (\<exists>appended. variables (heap s' r ! j) = Some (requested @ appended)))"
    proof -
      fix j assume j: "j \<in> set (i # rest)"
      show "collectionId (heap s' r ! j) = collectionId (heap s r ! j)
            \<and> (case variables (heap s r ! j) of
                 None \<Rightarrow> heap s' r ! j = heap s r ! j
               | Some requested \<Rightarrow> (\<exists>appended. variables (heap s' r ! j) = Some (requested @ appended)))"
      proof (cases "j = i")
        case True
        then show ?thesis using i Some by simp
      next
        case False
        then have jr: "j \<in> set rest" using j by simp
        have e: "heap ?s2 r ! j = heap s r ! j" using same[OF jr] .
        from ih jr have "collectionId (heap s' r ! j) = collectionId (heap ?s2 r ! j)
            \<and> (case variables (heap ?s2 r ! j) of
                 None \<Rightarrow> heap s' r ! j = heap ?s2 r ! j
               | Some requested \<Rightarrow> (\<exists>appended. variables (heap s' r ! j) = Some (requested @ appended)))"
          by blast
        then show ?thesis unfolding e .
      qed
    qed
    moreover have "queries s' = queries s @ map (\<lambda>i. map meta_concept_id (the (variables (heap s r ! i))))
                          (filter (\<lambda>i. variables (heap s r ! i) \<noteq> None) (i # rest))"
      using ih m h Some by simp
    ultimately show ?thesis by blast
  qed
qed

lemma addRequiredLoop_graphStore:
  assumes "distinct is" "\<forall>i\<in>set is. i < length (heap s r)"
  shows "fst (addRequiredLoop (graphStore g) r is s) = Inr ()
       \<and> (\<forall>i\<in>set is. heap (snd (addRequiredLoop (graphStore g) r is s)) r ! i
                          = augmentFrom g (heap s r ! i))"
  using assms
proof (induction "is" arbitrary: s)
  case Nil
  then show ?case by simp
next
  case (Cons i rest)
  have fr: "\<And>t. heap (snd (addRequiredLoop (graphStore g) r rest t)) r ! i = heap t r ! i"
    using addRequiredLoop_frame[of "graphStore g" r rest] Cons.prems(1) by simp
  show ?case
  proof (cases "variables (heap s r ! i)")
    case None
    then have eq: "addRequiredLoop (graphStore g) r (i # rest) s = addRequiredLoop (graphStore g) r rest s"
      by (simp add: addRequiredLoop_None)
    have "augmentFrom g (heap s r ! i) = heap s r ! i" using None by (simp add: augmentFrom_def)
    then show ?thesis unfolding eq using Cons.IH[of s] Cons.prems fr[of s] by simp
  next
    case (Some requested)
    let ?rows = "extractVariableResults (requiredVariableQuery g (map meta_concept_id requested))"
    let ?vi = "(heap s r ! i)\<lparr>variables := Some (forEachPush requested ?rows)\<rparr>"
    let ?s2 = "s\<lparr>queries := queries s @ [map meta_concept_id requested],
                  heap := (heap s)(r := (heap s r)[i := ?vi])\<rparr>"
    have eq: "addRequiredLoop (graphStore g) r (i # rest) s = addRequiredLoop (graphStore g) r rest ?s2"
      using addRequiredLoop_Some[where db="graphStore g" and rest=rest, OF Some getRequiredVariables_graphStore]
      by simp
    have a: "augmentFrom g (heap s r ! i) = ?vi" using Some by (simp add: augmentFrom_def)
    have ih: "fst (addRequiredLoop (graphStore g) r rest ?s2) = Inr ()
       \<and> (\<forall>j\<in>set rest. heap (snd (addRequiredLoop (graphStore g) r rest ?s2)) r ! j
                          = augmentFrom g (heap ?s2 r ! j))"
      using Cons.IH[of ?s2] Cons.prems by simp
    have "\<And>j. j \<in> set (i # rest) \<Longrightarrow>
            heap (snd (addRequiredLoop (graphStore g) r rest ?s2)) r ! j = augmentFrom g (heap s r ! j)"
    proof -
      fix j assume j: "j \<in> set (i # rest)"
      show "heap (snd (addRequiredLoop (graphStore g) r rest ?s2)) r ! j = augmentFrom g (heap s r ! j)"
      proof (cases "j = i")
        case True
        then show ?thesis using fr[of ?s2] a Cons.prems(2) by simp
      next
        case False
        then have jr: "j \<in> set rest" using j by simp
        have "heap ?s2 r ! j = heap s r ! j" using False by simp
        then show ?thesis using ih jr by simp
      qed
    qed
    then show ?thesis unfolding eq using ih by blast
  qed
qed

lemma addRequiredVariables_graphStore:
  "fst (addRequiredVariables (graphStore g) r s) = Inr r
   \<and> heap (snd (addRequiredVariables (graphStore g) r s))
       = (heap s)(r := map (augmentFrom g) (heap s r))
   \<and> queries (snd (addRequiredVariables (graphStore g) r s))
       = queries s @ map (\<lambda>varInfo. map meta_concept_id (the (variables varInfo)))
                       (filter (\<lambda>varInfo. variables varInfo \<noteq> None) (heap s r))"
proof -
  let ?n = "length (heap s r)"
  obtain res s' where l: "addRequiredLoop (graphStore g) r [0..<?n] s = (res, s')"
    by (cases "addRequiredLoop (graphStore g) r [0..<?n] s")
  have g: "res = Inr ()" "\<forall>i<?n. heap s' r ! i = augmentFrom g (heap s r ! i)"
    using addRequiredLoop_graphStore[of "[0..<?n]" s r g] l by simp_all
  have fr: "length (heap s' r) = ?n" "\<forall>r'. r' \<noteq> r \<longrightarrow> heap s' r' = heap s r'"
    using addRequiredLoop_frame[of "graphStore g" r "[0..<?n]" s] l by simp_all
  have "heap s' r = map (augmentFrom g) (heap s r)"
    using g(2) fr(1) by (intro nth_equalityI) simp_all
  then have h: "heap s' = (heap s)(r := map (augmentFrom g) (heap s r))"
    using fr(2) by (intro ext) simp
  have "queries s' = queries s @ map (\<lambda>i. map meta_concept_id (the (variables (heap s r ! i))))
                          (filter (\<lambda>i. variables (heap s r ! i) \<noteq> None) [0..<?n])"
    using addRequiredLoop_success[of "[0..<?n]" s r "graphStore g" "()" s'] l g(1) by simp
  also have "map (\<lambda>i. map meta_concept_id (the (variables (heap s r ! i))))
                          (filter (\<lambda>i. variables (heap s r ! i) \<noteq> None) [0..<?n])
      = map (\<lambda>varInfo. map meta_concept_id (the (variables varInfo)))
          (filter (\<lambda>varInfo. variables varInfo \<noteq> None) (map ((!) (heap s r)) [0..<?n]))"
    by (simp add: filter_map comp_def)
  finally have q: "queries s' = queries s @ map (\<lambda>varInfo. map meta_concept_id (the (variables varInfo)))
                       (filter (\<lambda>varInfo. variables varInfo \<noteq> None) (heap s r))"
    by (simp add: map_nth)
  show ?thesis using l g(1) h q by (simp add: addRequiredVariables_def)
qed

section \<open>Frame of a successful call\<close>

text \<open>
  Claim C10. When \<open>addRequiredVariables\<close> returns, it returns the reference of the array it
  was given. The array has as many entries as before, every entry is at its position with
  its collection id, an entry without \<open>variables\<close> is unchanged, and the variables of
  any other entry are the requested ones, at their positions, followed by what was
  appended. No other array has changed. One query was sent for every entry with
  \<open>variables\<close>, with the concept ids of that entry, and none for the others.
\<close>

theorem addRequiredVariables_frame:
  assumes "addRequiredVariables db varInfos s = (Inr returned, s')"
  shows "returned = varInfos
       \<and> length (heap s' varInfos) = length (heap s varInfos)
       \<and> (\<forall>i<length (heap s varInfos).
            collectionId (heap s' varInfos ! i) = collectionId (heap s varInfos ! i)
            \<and> (case variables (heap s varInfos ! i) of
                 None \<Rightarrow> heap s' varInfos ! i = heap s varInfos ! i
               | Some requested \<Rightarrow>
                   (\<exists>appended. variables (heap s' varInfos ! i) = Some (requested @ appended))))
       \<and> (\<forall>other. other \<noteq> varInfos \<longrightarrow> heap s' other = heap s other)
       \<and> queries s' = queries s @ map (\<lambda>varInfo. map meta_concept_id (the (variables varInfo)))
                          (filter (\<lambda>varInfo. variables varInfo \<noteq> None) (heap s varInfos))"
proof -
  let ?n = "length (heap s varInfos)"
  from assms have l: "addRequiredLoop db varInfos [0..<?n] s = (Inr (), s')" and r: "returned = varInfos"
    by (auto simp: addRequiredVariables_def split: prod.splits sum.splits)
  have fr: "length (heap s' varInfos) = ?n" "\<forall>other. other \<noteq> varInfos \<longrightarrow> heap s' other = heap s other"
    using addRequiredLoop_frame[of db varInfos "[0..<?n]" s] l by simp_all
  have su: "\<forall>i\<in>set [0..<?n]. collectionId (heap s' varInfos ! i) = collectionId (heap s varInfos ! i)
            \<and> (case variables (heap s varInfos ! i) of
                 None \<Rightarrow> heap s' varInfos ! i = heap s varInfos ! i
               | Some requested \<Rightarrow>
                   (\<exists>appended. variables (heap s' varInfos ! i) = Some (requested @ appended)))"
    and q0: "queries s' = queries s @ map (\<lambda>i. map meta_concept_id (the (variables (heap s varInfos ! i))))
                          (filter (\<lambda>i. variables (heap s varInfos ! i) \<noteq> None) [0..<?n])"
    using addRequiredLoop_success[of "[0..<?n]" s varInfos db "()" s'] l by simp_all
  have "map (\<lambda>i. map meta_concept_id (the (variables (heap s varInfos ! i))))
                          (filter (\<lambda>i. variables (heap s varInfos ! i) \<noteq> None) [0..<?n])
      = map (\<lambda>varInfo. map meta_concept_id (the (variables varInfo)))
          (filter (\<lambda>varInfo. variables varInfo \<noteq> None) (map ((!) (heap s varInfos)) [0..<?n]))"
    by (simp add: filter_map comp_def)
  then have q: "queries s' = queries s @ map (\<lambda>varInfo. map meta_concept_id (the (variables varInfo)))
                          (filter (\<lambda>varInfo. variables varInfo \<noteq> None) (heap s varInfos))"
    using q0 by (simp add: map_nth)
  show ?thesis using r fr su q by simp
qed

lemma cycleGraph_eq:
  "cycleGraph = \<lparr>vertices =
      [\<lparr>vLabel = CollectionLabel, vConceptId = ''C1'', vName = ''CYCLE'', vDataType = None\<rparr>,
       \<lparr>vLabel = VariableLabel, vConceptId = ''VA'', vName = ''/a'', vDataType = Some ''float32''\<rparr>,
       \<lparr>vLabel = VariableLabel, vConceptId = ''VB'', vName = ''/b'', vDataType = Some ''float32''\<rparr>],
     relationships =
      [\<lparr>relType = HASVARIABLE, origin = 0, destination = 1\<rparr>,
       \<lparr>relType = HASVARIABLE, origin = 0, destination = 2\<rparr>,
       \<lparr>relType = REQUIRES, origin = 1, destination = 2\<rparr>,
       \<lparr>relType = REQUIRES, origin = 2, destination = 1\<rparr>]\<rparr>"
  by (simp add: cycleGraph_def populateWith_def cycleAB_def emptyGraph_def getCollectionQueryString_def
      requiresEdgeOf_def buildRequiresEdge_def buildHasVariableEdge_def buildVariableVertex_def
      getVariableLabel_def)

lemma cycle_query_A:
  "requiredVariableQuery cycleGraph [''VA''] =
     [\<lparr>ConceptId = ''VB'', Name = ''/b''\<rparr>, \<lparr>ConceptId = ''VA'', Name = ''/a''\<rparr>]"
  by code_simp

theorem addRequiredVariables_frame_witness:
  "addRequiredVariables (graphStore cycleGraph) 0
      (requestState [\<lparr>collectionId = ''C1'', variables = Some [\<lparr>meta_concept_id = ''VA'', umm_Name = ''/a''\<rparr>]\<rparr>,
                     \<lparr>collectionId = ''C2'', variables = None\<rparr>])
     = (Inr 0, snd (addRequiredVariables (graphStore cycleGraph) 0
      (requestState [\<lparr>collectionId = ''C1'', variables = Some [\<lparr>meta_concept_id = ''VA'', umm_Name = ''/a''\<rparr>]\<rparr>,
                     \<lparr>collectionId = ''C2'', variables = None\<rparr>])))
   \<and> heap (snd (addRequiredVariables (graphStore cycleGraph) 0
      (requestState [\<lparr>collectionId = ''C1'', variables = Some [\<lparr>meta_concept_id = ''VA'', umm_Name = ''/a''\<rparr>]\<rparr>,
                     \<lparr>collectionId = ''C2'', variables = None\<rparr>]))) 0
     = [\<lparr>collectionId = ''C1'', variables = Some [\<lparr>meta_concept_id = ''VA'', umm_Name = ''/a''\<rparr>,
                                                      \<lparr>meta_concept_id = ''VB'', umm_Name = ''/b''\<rparr>]\<rparr>,
        \<lparr>collectionId = ''C2'', variables = None\<rparr>]
   \<and> queries (snd (addRequiredVariables (graphStore cycleGraph) 0
      (requestState [\<lparr>collectionId = ''C1'', variables = Some [\<lparr>meta_concept_id = ''VA'', umm_Name = ''/a''\<rparr>]\<rparr>,
                     \<lparr>collectionId = ''C2'', variables = None\<rparr>])))
     = [[''VA'']]"
proof -
  let ?s = "requestState [\<lparr>collectionId = ''C1'', variables = Some [\<lparr>meta_concept_id = ''VA'', umm_Name = ''/a''\<rparr>]\<rparr>,
                     \<lparr>collectionId = ''C2'', variables = None\<rparr>]"
  let ?r = "addRequiredVariables (graphStore cycleGraph) 0 ?s"
  have f: "fst ?r = Inr 0" by code_simp
  then have h: "?r = (Inr 0, snd ?r)" by (simp add: prod_eq_iff)
  have v: "heap (snd ?r) 0
     = [\<lparr>collectionId = ''C1'', variables = Some [\<lparr>meta_concept_id = ''VA'', umm_Name = ''/a''\<rparr>,
                                                      \<lparr>meta_concept_id = ''VB'', umm_Name = ''/b''\<rparr>]\<rparr>,
        \<lparr>collectionId = ''C2'', variables = None\<rparr>]"
    by code_simp
  have q: "queries ?s = []" "heap ?s 0 = [\<lparr>collectionId = ''C1'', variables = Some [\<lparr>meta_concept_id = ''VA'', umm_Name = ''/a''\<rparr>]\<rparr>,
                     \<lparr>collectionId = ''C2'', variables = None\<rparr>]"
    by (simp_all add: requestState_def)
  show ?thesis using addRequiredVariables_frame[OF h] h v q by simp
qed

section \<open>A query that fails\<close>

text \<open>
  Claim C1, as the code has it. When \<open>session.run\<close> is rejected, \<open>performCypherQuery\<close>
  catches the error and writes it to the console: the error of the server is not raised.
  When the session and the driver close, \<open>performCypherQuery\<close> and
  \<open>getRequiredVariables\<close> resolve with \<open>undefined\<close>; a rejected \<open>close\<close> is raised
  instead. In no case is the result an array, so it is never the empty array that a query
  without rows gives.
\<close>

theorem rejected_query_logged_and_undefined:
  assumes "run db (length (queries s)) requiredVariableQuery requestedVariableConceptIds = Inl e"
  shows "performCypherQuery db (length (queries s)) requiredVariableQuery
            requestedVariableConceptIds extractVariableResults s
          = ((case sessionClose db (length (queries s)) of Some e' \<Rightarrow> Inl e' | None \<Rightarrow> Inr None),
             s\<lparr>queries := queries s @ [requestedVariableConceptIds], console := console s @ [e]\<rparr>)
       \<and> getRequiredVariables db requestedVariableConceptIds s
          = ((case sessionClose db (length (queries s)) of
                Some e' \<Rightarrow> Inl e'
              | None \<Rightarrow> (case driverClose db (length (queries s)) of
                           Some e' \<Rightarrow> Inl e' | None \<Rightarrow> Inr None)),
             s\<lparr>queries := queries s @ [requestedVariableConceptIds], console := console s @ [e]\<rparr>)
       \<and> (\<forall>requiredVariables.
             fst (getRequiredVariables db requestedVariableConceptIds s) \<noteq> Inr (Some requiredVariables))"
proof -
  have p: "performCypherQuery db (length (queries s)) requiredVariableQuery
            requestedVariableConceptIds extractVariableResults s
          = ((case sessionClose db (length (queries s)) of Some e' \<Rightarrow> Inl e' | None \<Rightarrow> Inr None),
             s\<lparr>queries := queries s @ [requestedVariableConceptIds], console := console s @ [e]\<rparr>)"
    using assms by (simp add: performCypherQuery_def split: option.splits)
  have g: "getRequiredVariables db requestedVariableConceptIds s
          = ((case sessionClose db (length (queries s)) of
                Some e' \<Rightarrow> Inl e'
              | None \<Rightarrow> (case driverClose db (length (queries s)) of
                           Some e' \<Rightarrow> Inl e' | None \<Rightarrow> Inr None)),
             s\<lparr>queries := queries s @ [requestedVariableConceptIds], console := console s @ [e]\<rparr>)"
    using getRequiredVariables_rejected[OF assms] .
  have "\<forall>requiredVariables.
             fst (getRequiredVariables db requestedVariableConceptIds s) \<noteq> Inr (Some requiredVariables)"
    unfolding g by (simp split: option.splits)
  with p g show ?thesis by blast
qed

theorem rejected_query_logged_and_undefined_witness:
  "run unreachable (length (queries (requestState []))) requiredVariableQuery [''VA'']
     = Inl (Neo4jError ''ServiceUnavailable'')
   \<and> fst (getRequiredVariables unreachable [''VA''] (requestState [])) = Inr None
   \<and> console (snd (getRequiredVariables unreachable [''VA''] (requestState [])))
       = [Neo4jError ''ServiceUnavailable'']
   \<and> fst (getRequiredVariables (graphStore emptyGraph) [''VA''] (requestState [])) = Inr (Some [])"
proof -
  have h: "run unreachable (length (queries (requestState []))) requiredVariableQuery [''VA'']
     = Inl (Neo4jError ''ServiceUnavailable'')"
    by (simp add: unreachable_def)
  have c: "sessionClose unreachable (length (queries (requestState []))) = None"
    "driverClose unreachable (length (queries (requestState []))) = None"
    "console (requestState []) = []"
    by (simp_all add: unreachable_def requestState_def)
  have e: "fst (getRequiredVariables (graphStore emptyGraph) [''VA''] (requestState [])) = Inr (Some [])"
    by code_simp
  show ?thesis using rejected_query_logged_and_undefined[OF h] h c e by simp
qed

text \<open>
  The claim as the specification states it fails: with a server that cannot be reached,
  \<open>getRequiredVariables\<close> returns \<open>undefined\<close> and raises nothing, and the caller of
  \<open>addRequiredVariables\<close> gets a TypeError, not the error of the server.
\<close>

theorem store_error_not_raised_counterexample:
  "fst (getRequiredVariables unreachable [''VA''] (requestState [])) = Inr None
   \<and> fst (addRequiredVariables unreachable 0
            (requestState [\<lparr>collectionId = ''C1'', variables = Some [varA]\<rparr>]))
       = Inl (TypeError ''Cannot read properties of undefined (reading forEach)'')
   \<and> fst (addRequiredVariables unreachable 0
            (requestState [\<lparr>collectionId = ''C1'', variables = Some [varA]\<rparr>]))
       \<noteq> Inl (Neo4jError ''ServiceUnavailable'')"
  by code_simp

section \<open>An error after some entries\<close>

lemma upt_split:
  assumes "[0..<n] = pre @ post"
  shows "pre = [0..<length pre] \<and> length pre + length post = n"
proof -
  have l: "length pre + length post = n"
    using arg_cong[OF assms, of length] by simp
  have "pre = take (length pre) [0..<n]" using assms by simp
  also have "\<dots> = [0..<length pre]" using l by (simp add: take_upt)
  finally show ?thesis using l by simp
qed

text \<open>
  Claim C8, as the code has it. When \<open>addRequiredVariables\<close> ends in an error, the array
  of the caller is what the loop made of it before the entry that failed: the entries
  before position \<open>k\<close> were processed and keep what was appended to them, the entry at
  \<open>k\<close> and all later entries are as given. Only when the first entry fails (so for a
  request of one entry) is the array as given.
\<close>

theorem addRequiredVariables_error_keeps_earlier_entries:
  assumes "addRequiredVariables db varInfos s = (Inl e, s')"
  shows "\<exists>k mid. k < length (heap s varInfos)
           \<and> addRequiredLoop db varInfos [0..<k] s = (Inr (), mid)
           \<and> heap s' = heap mid
           \<and> length (heap s' varInfos) = length (heap s varInfos)
           \<and> drop k (heap s' varInfos) = drop k (heap s varInfos)
           \<and> (k = 0 \<longrightarrow> heap s' = heap s)
           \<and> (length (heap s varInfos) = 1 \<longrightarrow> heap s' = heap s)"
proof -
  let ?n = "length (heap s varInfos)"
  obtain res t where lt: "addRequiredLoop db varInfos [0..<?n] s = (res, t)"
    by (cases "addRequiredLoop db varInfos [0..<?n] s")
  with assms have "res = Inl e \<and> t = s'"
    by (cases res) (simp_all add: addRequiredVariables_def)
  with lt have le: "addRequiredLoop db varInfos [0..<?n] s = (Inl e, s')" by simp
  obtain pre post mid where p: "[0..<?n] = pre @ post" "post \<noteq> []"
      "addRequiredLoop db varInfos pre s = (Inr (), mid)" "heap s' = heap mid"
    using addRequiredLoop_error[OF le] by blast
  let ?k = "length pre"
  have pre: "pre = [0..<?k]" by (rule conjunct1[OF upt_split[OF p(1)]])
  have "?k + length post = ?n" by (rule conjunct2[OF upt_split[OF p(1)]])
  then have k: "?k < ?n" using p(2) by (cases post) simp_all
  have l: "addRequiredLoop db varInfos [0..<?k] s = (Inr (), mid)"
    unfolding pre[symmetric] by (rule p(3))
  have fr: "length (heap mid varInfos) = ?n"
      "\<forall>i. i \<notin> set [0..<?k] \<longrightarrow> heap mid varInfos ! i = heap s varInfos ! i"
    using addRequiredLoop_frame[of db varInfos "[0..<?k]" s] l by simp_all
  have d: "drop ?k (heap s' varInfos) = drop ?k (heap s varInfos)"
    using fr p(4) by (intro nth_equalityI) simp_all
  have z: "?k = 0 \<longrightarrow> heap s' = heap s" using l p(4) by auto
  have one: "?n = 1 \<longrightarrow> heap s' = heap s"
  proof
    assume "?n = 1"
    then have "?k = 0" using k by linarith
    then show "heap s' = heap s" using z by blast
  qed
  have len: "length (heap s' varInfos) = ?n" using fr(1) p(4) by simp
  from k l p(4) len d z one show ?thesis by blast
qed

theorem addRequiredVariables_error_keeps_earlier_entries_witness:
  "addRequiredVariables unreachable 0 (requestState [\<lparr>collectionId = ''C1'', variables = Some [varA]\<rparr>])
     = (Inl (TypeError ''Cannot read properties of undefined (reading forEach)''),
        snd (addRequiredVariables unreachable 0
               (requestState [\<lparr>collectionId = ''C1'', variables = Some [varA]\<rparr>])))
   \<and> length (heap (requestState [\<lparr>collectionId = ''C1'', variables = Some [varA]\<rparr>]) 0) = 1
   \<and> heap (snd (addRequiredVariables unreachable 0
               (requestState [\<lparr>collectionId = ''C1'', variables = Some [varA]\<rparr>])))
       = heap (requestState [\<lparr>collectionId = ''C1'', variables = Some [varA]\<rparr>])"
proof -
  let ?s = "requestState [\<lparr>collectionId = ''C1'', variables = Some [varA]\<rparr>]"
  let ?r = "addRequiredVariables unreachable 0 ?s"
  have "fst ?r = Inl (TypeError ''Cannot read properties of undefined (reading forEach)'')"
    by code_simp
  then have h: "?r = (Inl (TypeError ''Cannot read properties of undefined (reading forEach)''), snd ?r)"
    by (simp add: prod_eq_iff)
  have n: "length (heap ?s 0) = 1" by (simp add: requestState_def)
  show ?thesis using addRequiredVariables_error_keeps_earlier_entries[OF h] h n by auto
qed

text \<open>
  The claim as the specification states it fails: the request has two entries, the server
  answers the first query and fails at the second. The call ends in an error, and the
  first entry of the array of the caller has the variable that was appended to it.
\<close>

theorem partial_augmentation_counterexample:
  "fst (addRequiredVariables (failsAfter 1 cycleGraph) 0
          (requestState [\<lparr>collectionId = ''C1'', variables = Some [varA]\<rparr>,
                         \<lparr>collectionId = ''C2'', variables = Some [varB]\<rparr>]))
     = Inl (TypeError ''Cannot read properties of undefined (reading forEach)'')
   \<and> heap (snd (addRequiredVariables (failsAfter 1 cycleGraph) 0
          (requestState [\<lparr>collectionId = ''C1'', variables = Some [varA]\<rparr>,
                         \<lparr>collectionId = ''C2'', variables = Some [varB]\<rparr>]))) 0
     = [\<lparr>collectionId = ''C1'', variables = Some [varA, varB]\<rparr>,
        \<lparr>collectionId = ''C2'', variables = Some [varB]\<rparr>]
   \<and> heap (snd (addRequiredVariables (failsAfter 1 cycleGraph) 0
          (requestState [\<lparr>collectionId = ''C1'', variables = Some [varA]\<rparr>,
                         \<lparr>collectionId = ''C2'', variables = Some [varB]\<rparr>]))) 0
     \<noteq> heap (requestState [\<lparr>collectionId = ''C1'', variables = Some [varA]\<rparr>,
                         \<lparr>collectionId = ''C2'', variables = Some [varB]\<rparr>]) 0"
  by code_simp

section \<open>A request without variables\<close>

lemma requiredVariableQuery_Nil: "requiredVariableQuery g [] = []"
  by (simp add: requiredVariableQuery_def)

lemma augmentFrom_empty:
  "variables varInfo = None \<or> variables varInfo = Some [] \<Longrightarrow> augmentFrom g varInfo = varInfo"
  by (auto simp: augmentFrom_def requiredVariableQuery_Nil extractVariableResults_def)

text \<open>
  Claim C3, as the code has it. There is no short-circuit: for a request in which every
  entry has no \<open>variables\<close> or an empty array of them, and a server that holds a graph
  and answers, \<open>addRequiredVariables\<close> returns the array unchanged, and has sent one
  query, with an empty list of concept ids, for every entry with an empty array; entries
  without \<open>variables\<close> cause no query.
\<close>

theorem empty_request_unchanged_but_queried:
  assumes "\<forall>varInfo \<in> set (heap s varInfos). variables varInfo = None \<or> variables varInfo = Some []"
  shows "fst (addRequiredVariables (graphStore g) varInfos s) = Inr varInfos
       \<and> heap (snd (addRequiredVariables (graphStore g) varInfos s)) = heap s
       \<and> queries (snd (addRequiredVariables (graphStore g) varInfos s))
           = queries s @ replicate (length (filter (\<lambda>varInfo. variables varInfo = Some [])
                                             (heap s varInfos))) []"
proof -
  have m: "map (augmentFrom g) (heap s varInfos) = heap s varInfos"
    using assms by (intro map_idI) (simp add: augmentFrom_empty)
  have f: "filter (\<lambda>varInfo. variables varInfo \<noteq> None) (heap s varInfos)
         = filter (\<lambda>varInfo. variables varInfo = Some []) (heap s varInfos)"
    using assms by (intro filter_cong) auto
  have "map (\<lambda>varInfo. map meta_concept_id (the (variables varInfo)))
          (filter (\<lambda>varInfo. variables varInfo = Some []) (heap s varInfos))
        = replicate (length (filter (\<lambda>varInfo. variables varInfo = Some []) (heap s varInfos))) []"
    by (intro map_replicate_const[THEN trans[rotated]] map_cong) auto
  then show ?thesis using addRequiredVariables_graphStore[of g varInfos s] m f by simp
qed

theorem empty_request_unchanged_but_queried_witness:
  "(variables \<lparr>collectionId = ''C1'', variables = Some []\<rparr> = Some []
      \<and> variables \<lparr>collectionId = ''C2'', variables = None\<rparr> = None)
   \<and> fst (addRequiredVariables (graphStore cycleGraph) 0
        (requestState [\<lparr>collectionId = ''C1'', variables = Some []\<rparr>,
                       \<lparr>collectionId = ''C2'', variables = None\<rparr>])) = Inr 0
   \<and> heap (snd (addRequiredVariables (graphStore cycleGraph) 0
        (requestState [\<lparr>collectionId = ''C1'', variables = Some []\<rparr>,
                       \<lparr>collectionId = ''C2'', variables = None\<rparr>])))
       = heap (requestState [\<lparr>collectionId = ''C1'', variables = Some []\<rparr>,
                             \<lparr>collectionId = ''C2'', variables = None\<rparr>])
   \<and> queries (snd (addRequiredVariables (graphStore cycleGraph) 0
        (requestState [\<lparr>collectionId = ''C1'', variables = Some []\<rparr>,
                       \<lparr>collectionId = ''C2'', variables = None\<rparr>]))) = [[]]"
  using empty_request_unchanged_but_queried[of
      "requestState [\<lparr>collectionId = ''C1'', variables = Some []\<rparr>,
                     \<lparr>collectionId = ''C2'', variables = None\<rparr>]" 0 cycleGraph]
  by (simp add: requestState_def)

text \<open>
  The claim as the specification states it fails: for a request with one entry and an
  empty array of variables, one query is sent to the server.
\<close>

theorem empty_request_counterexample:
  "queries (requestState [\<lparr>collectionId = ''C1'', variables = Some []\<rparr>]) = []
   \<and> queries (snd (addRequiredVariables (graphStore cycleGraph) 0
        (requestState [\<lparr>collectionId = ''C1'', variables = Some []\<rparr>]))) = [[]]"
  by code_simp

section \<open>The result of the query\<close>

lemma requiredVariableQuery_reachable:
  "set (requiredVariableQuery g ids) =
     recordOf g ` {j. j < length (vertices g) \<and> j \<in> (requiresRel g)\<^sup>+ `` seedVertices g ids}"
  unfolding requiredVariableQuery_set seedVertices_def recordOf_def by auto

lemma trancl_Image_lfp: "R\<^sup>+ `` S = lfp (\<lambda>X. R `` (S \<union> X))"
proof (rule antisym)
  have m: "mono (\<lambda>X. R `` (S \<union> X))" by (intro monoI Image_mono) auto
  show "R\<^sup>+ `` S \<subseteq> lfp (\<lambda>X. R `` (S \<union> X))"
  proof
    fix y assume "y \<in> R\<^sup>+ `` S"
    then obtain x where x: "x \<in> S" "(x, y) \<in> R\<^sup>+" by auto
    from x(2) show "y \<in> lfp (\<lambda>X. R `` (S \<union> X))"
    proof (induction rule: trancl_induct)
      case (base y)
      then have "y \<in> R `` (S \<union> lfp (\<lambda>X. R `` (S \<union> X)))" using x(1) by auto
      then show ?case using lfp_unfold[OF m] by simp
    next
      case (step y z)
      then have "z \<in> R `` (S \<union> lfp (\<lambda>X. R `` (S \<union> X)))" by auto
      then show ?case using lfp_unfold[OF m] by simp
    qed
  qed
  have "R `` (S \<union> R\<^sup>+ `` S) \<subseteq> R\<^sup>+ `` S"
    by (auto intro: trancl_into_trancl)
  then show "lfp (\<lambda>X. R `` (S \<union> X)) \<subseteq> R\<^sup>+ `` S"
    by (rule lfp_lowerbound)
qed

text \<open>
  Claim C2, as the code has it. For every graph in the database and every list of
  requested concept ids, the records the query returns are those of the vertices
  reachable from a requested vertex by one or more \<open>REQUIRES\<close> relationships, each
  record once. The set of these vertices is the least fixed point of "add what a requested
  vertex, or a vertex already in the set, requires". A requested vertex is not in this set
  for being requested, but it is in it, and its record in the result, whenever a
  requested vertex reaches it: another one, or itself around a cycle.
\<close>

theorem requiredVariableQuery_transitive_closure:
  "set (requiredVariableQuery g requestedVariableConceptIds) =
     recordOf g ` {j. j < length (vertices g)
                      \<and> j \<in> (requiresRel g)\<^sup>+ `` seedVertices g requestedVariableConceptIds}
   \<and> ConceptId ` set (requiredVariableQuery g requestedVariableConceptIds) =
     (\<lambda>j. vConceptId (vertices g ! j)) `
        {j. j < length (vertices g)
            \<and> j \<in> (requiresRel g)\<^sup>+ `` seedVertices g requestedVariableConceptIds}
   \<and> (requiresRel g)\<^sup>+ `` seedVertices g requestedVariableConceptIds
       = lfp (\<lambda>X. requiresRel g `` (seedVertices g requestedVariableConceptIds \<union> X))
   \<and> distinct (requiredVariableQuery g requestedVariableConceptIds)
   \<and> (\<forall>i \<in> seedVertices g requestedVariableConceptIds.
        (\<exists>k \<in> seedVertices g requestedVariableConceptIds. (k, i) \<in> (requiresRel g)\<^sup>+)
        \<longrightarrow> recordOf g i \<in> set (requiredVariableQuery g requestedVariableConceptIds))"
proof -
  have a: "set (requiredVariableQuery g requestedVariableConceptIds) =
     recordOf g ` {j. j < length (vertices g)
                      \<and> j \<in> (requiresRel g)\<^sup>+ `` seedVertices g requestedVariableConceptIds}"
    by (rule requiredVariableQuery_reachable)
  have b: "ConceptId ` set (requiredVariableQuery g requestedVariableConceptIds) =
     (\<lambda>j. vConceptId (vertices g ! j)) `
        {j. j < length (vertices g)
            \<and> j \<in> (requiresRel g)\<^sup>+ `` seedVertices g requestedVariableConceptIds}"
    unfolding a by (simp add: image_image recordOf_def)
  have c: "distinct (requiredVariableQuery g requestedVariableConceptIds)"
    by (simp add: requiredVariableQuery_def)
  have d: "\<forall>i \<in> seedVertices g requestedVariableConceptIds.
        (\<exists>k \<in> seedVertices g requestedVariableConceptIds. (k, i) \<in> (requiresRel g)\<^sup>+)
        \<longrightarrow> recordOf g i \<in> set (requiredVariableQuery g requestedVariableConceptIds)"
  proof (intro ballI impI)
    fix i
    assume i: "i \<in> seedVertices g requestedVariableConceptIds"
      and "\<exists>k \<in> seedVertices g requestedVariableConceptIds. (k, i) \<in> (requiresRel g)\<^sup>+"
    then have "i \<in> (requiresRel g)\<^sup>+ `` seedVertices g requestedVariableConceptIds" by blast
    moreover have "i < length (vertices g)" using i by (simp add: seedVertices_def)
    ultimately show "recordOf g i \<in> set (requiredVariableQuery g requestedVariableConceptIds)"
      unfolding a by blast
  qed
  show ?thesis by (intro conjI a b c d trancl_Image_lfp)
qed

lemma seedVertices_filter:
  "seedVertices g ids =
     set (filter (\<lambda>i. vLabel (vertices g ! i) = VariableLabel \<and> vConceptId (vertices g ! i) \<in> set ids)
            [0..<length (vertices g)])"
  by (auto simp: seedVertices_def)

lemma cycleGraph_seed_A: "seedVertices cycleGraph [''VA''] = {1}"
proof -
  have "filter (\<lambda>i. vLabel (vertices cycleGraph ! i) = VariableLabel
                    \<and> vConceptId (vertices cycleGraph ! i) \<in> set [''VA''])
            [0..<length (vertices cycleGraph)] = [1]"
    by code_simp
  then show ?thesis by (simp add: seedVertices_filter)
qed

theorem requiredVariableQuery_transitive_closure_witness:
  "ConceptId ` set (requiredVariableQuery cycleGraph [''VA'']) = {''VA'', ''VB''}
   \<and> seedVertices cycleGraph [''VA''] = {1}
   \<and> (\<lambda>j. vConceptId (vertices cycleGraph ! j)) `
        {j. j < length (vertices cycleGraph) \<and> j \<in> (requiresRel cycleGraph)\<^sup>+ `` {1}}
       = {''VA'', ''VB''}
   \<and> (1, 1) \<in> (requiresRel cycleGraph)\<^sup>+
   \<and> recordOf cycleGraph 1 \<in> set (requiredVariableQuery cycleGraph [''VA''])"
proof -
  have q: "ConceptId ` set (requiredVariableQuery cycleGraph [''VA'']) = {''VA'', ''VB''}"
    by (auto simp: cycle_query_A)
  have b: "ConceptId ` set (requiredVariableQuery cycleGraph [''VA'']) =
     (\<lambda>j. vConceptId (vertices cycleGraph ! j)) `
        {j. j < length (vertices cycleGraph)
            \<and> j \<in> (requiresRel cycleGraph)\<^sup>+ `` seedVertices cycleGraph [''VA'']}"
    by (rule conjunct1[OF conjunct2[OF requiredVariableQuery_transitive_closure]])
  have c: "(\<lambda>j. vConceptId (vertices cycleGraph ! j)) `
        {j. j < length (vertices cycleGraph) \<and> j \<in> (requiresRel cycleGraph)\<^sup>+ `` {1}}
       = {''VA'', ''VB''}"
    using b[unfolded cycleGraph_seed_A q] by (rule sym)
  have "(1, 2) \<in> requiresRel cycleGraph" "(2, 1) \<in> requiresRel cycleGraph"
    by (simp_all add: requiresRel_def cycleGraph_eq)
  then have l: "(1, 1) \<in> (requiresRel cycleGraph)\<^sup>+"
    by (blast intro: r_into_trancl trancl_into_trancl)
  have s: "(1::nat) \<in> seedVertices cycleGraph [''VA'']" by (simp add: cycleGraph_seed_A)
  have "\<forall>i \<in> seedVertices cycleGraph [''VA''].
        (\<exists>k \<in> seedVertices cycleGraph [''VA'']. (k, i) \<in> (requiresRel cycleGraph)\<^sup>+)
        \<longrightarrow> recordOf cycleGraph i \<in> set (requiredVariableQuery cycleGraph [''VA''])"
    using requiredVariableQuery_transitive_closure[of cycleGraph "[''VA'']"] by blast
  then have e: "recordOf cycleGraph 1 \<in> set (requiredVariableQuery cycleGraph [''VA''])"
    using s l by blast
  show ?thesis by (intro conjI q c cycleGraph_seed_A l e)
qed

section \<open>Concept ids the database does not know\<close>

lemma requiredVariableQuery_known_only:
  "requiredVariableQuery g ids
     = requiredVariableQuery g (filter (\<lambda>c. c \<in> vConceptId ` set (vertices g)) ids)"
proof -
  have "filter (\<lambda>(i, j). vConceptId (vertices g ! i) \<in> set ids) (matchRequires g)
      = filter (\<lambda>(i, j). vConceptId (vertices g ! i)
                   \<in> set (filter (\<lambda>c. c \<in> vConceptId ` set (vertices g)) ids)) (matchRequires g)"
  proof (intro filter_cong refl)
    fix x assume "x \<in> set (matchRequires g)"
    then have "fst x < length (vertices g)" by (auto simp: matchRequires_set)
    then have "vConceptId (vertices g ! fst x) \<in> vConceptId ` set (vertices g)" by simp
    then show "(case x of (i, j) \<Rightarrow> vConceptId (vertices g ! i) \<in> set ids)
             = (case x of (i, j) \<Rightarrow> vConceptId (vertices g ! i)
                   \<in> set (filter (\<lambda>c. c \<in> vConceptId ` set (vertices g)) ids))"
      by (cases x) simp
  qed
  then show ?thesis by (simp add: requiredVariableQuery_def)
qed

text \<open>
  Claim C9. The concept ids of a request that no vertex of the database has do not change
  the result of the query: the result is that of the request without them, wherever they
  stand in the list. In particular a request followed by unknown concept ids gives the
  result of the request alone. With a server that holds the graph and answers,
  \<open>getRequiredVariables\<close> returns this result as an array and raises no error.
\<close>

theorem unknown_concept_ids_ignored:
  "requiredVariableQuery g requestedVariableConceptIds
     = requiredVariableQuery g
         (filter (\<lambda>c. c \<in> vConceptId ` set (vertices g)) requestedVariableConceptIds)
   \<and> (set unknown \<inter> vConceptId ` set (vertices g) = {} \<longrightarrow>
        requiredVariableQuery g (requestedVariableConceptIds @ unknown)
          = requiredVariableQuery g requestedVariableConceptIds
        \<and> fst (getRequiredVariables (graphStore g) (requestedVariableConceptIds @ unknown) s)
          = Inr (Some (extractVariableResults
                         (requiredVariableQuery g requestedVariableConceptIds))))
   \<and> fst (getRequiredVariables (graphStore g) requestedVariableConceptIds s)
       = Inr (Some (extractVariableResults (requiredVariableQuery g
           (filter (\<lambda>c. c \<in> vConceptId ` set (vertices g)) requestedVariableConceptIds))))"
proof -
  let ?known = "\<lambda>c. c \<in> vConceptId ` set (vertices g)"
  have a: "requiredVariableQuery g requestedVariableConceptIds
     = requiredVariableQuery g (filter ?known requestedVariableConceptIds)"
    by (rule requiredVariableQuery_known_only)
  have b: "set unknown \<inter> vConceptId ` set (vertices g) = {} \<longrightarrow>
        requiredVariableQuery g (requestedVariableConceptIds @ unknown)
          = requiredVariableQuery g requestedVariableConceptIds
        \<and> fst (getRequiredVariables (graphStore g) (requestedVariableConceptIds @ unknown) s)
          = Inr (Some (extractVariableResults
                         (requiredVariableQuery g requestedVariableConceptIds)))"
  proof
    assume u: "set unknown \<inter> vConceptId ` set (vertices g) = {}"
    then have "filter ?known unknown = []" by (auto simp: filter_empty_conv)
    then have "filter ?known (requestedVariableConceptIds @ unknown)
             = filter ?known requestedVariableConceptIds"
      by simp
    then have "requiredVariableQuery g (requestedVariableConceptIds @ unknown)
          = requiredVariableQuery g requestedVariableConceptIds"
      using requiredVariableQuery_known_only[of g "requestedVariableConceptIds @ unknown"]
        requiredVariableQuery_known_only[of g requestedVariableConceptIds]
      by simp
    then show "requiredVariableQuery g (requestedVariableConceptIds @ unknown)
          = requiredVariableQuery g requestedVariableConceptIds
        \<and> fst (getRequiredVariables (graphStore g) (requestedVariableConceptIds @ unknown) s)
          = Inr (Some (extractVariableResults
                         (requiredVariableQuery g requestedVariableConceptIds)))"
      by (simp add: getRequiredVariables_graphStore)
  qed
  have c: "fst (getRequiredVariables (graphStore g) requestedVariableConceptIds s)
       = Inr (Some (extractVariableResults (requiredVariableQuery g
           (filter ?known requestedVariableConceptIds))))"
    using a by (simp add: getRequiredVariables_graphStore)
  show ?thesis by (intro conjI a b c)
qed

lemma cycleGraph_ids: "vConceptId ` set (vertices cycleGraph) = {''C1'', ''VA'', ''VB''}"
  unfolding cycleGraph_eq by simp

theorem unknown_concept_ids_ignored_witness:
  "set [''V404''] \<inter> vConceptId ` set (vertices cycleGraph) = {}
   \<and> requiredVariableQuery cycleGraph ([''VA''] @ [''V404''])
       = requiredVariableQuery cycleGraph [''VA'']
   \<and> fst (getRequiredVariables (graphStore cycleGraph) ([''VA''] @ [''V404'']) (requestState []))
       = Inr (Some [varB, varA])"
proof -
  have u: "set [''V404''] \<inter> vConceptId ` set (vertices cycleGraph) = {}"
    by (simp add: cycleGraph_ids)
  have e: "extractVariableResults (requiredVariableQuery cycleGraph [''VA'']) = [varB, varA]"
    by (simp add: cycle_query_A extractVariableResults_def varA_def varB_def)
  show ?thesis
    using unknown_concept_ids_ignored[of cycleGraph "[''VA'']" "[''V404'']" "requestState []"] u e
    by simp
qed

section \<open>Cycles\<close>

lemma trails_bounded:
  assumes "p \<in> set (trails g [] v)"
  shows "distinct p \<and> 1 \<le> length p \<and> length p \<le> length (relationships g)
       \<and> set p \<subseteq> {..<length (relationships g)}"
proof -
  from assms have p: "p \<noteq> []" "isPath g v p" "distinct p" by (auto simp: trails_set)
  have "\<And>v. isPath g v p \<Longrightarrow> set p \<subseteq> {..<length (relationships g)}"
    by (induction p) auto
  then have s: "set p \<subseteq> {..<length (relationships g)}" using p(2) by blast
  have "card (set p) \<le> card {..<length (relationships g)}"
    by (rule card_mono[OF _ s]) simp
  then have "length p \<le> length (relationships g)"
    using p(3) by (simp add: distinct_card)
  moreover have "1 \<le> length p" using p(1) by (cases p) simp_all
  ultimately show ?thesis using p(3) s by blast
qed

lemma requiredVariableQuery_length:
  "length (requiredVariableQuery g ids) \<le> length (vertices g)"
proof -
  have "set (requiredVariableQuery g ids) \<subseteq> recordOf g ` {..<length (vertices g)}"
    unfolding requiredVariableQuery_reachable by auto
  then have "card (set (requiredVariableQuery g ids)) \<le> card (recordOf g ` {..<length (vertices g)})"
    by (intro card_mono) simp_all
  also have "\<dots> \<le> card {..<length (vertices g)}" by (rule card_image_le) simp
  finally have "card (set (requiredVariableQuery g ids)) \<le> length (vertices g)" by simp
  moreover have "distinct (requiredVariableQuery g ids)" by (simp add: requiredVariableQuery_def)
  ultimately show ?thesis by (simp add: distinct_card)
qed

lemma cycle_query_B:
  "requiredVariableQuery cycleGraph [''VB''] =
     [\<lparr>ConceptId = ''VA'', Name = ''/a''\<rparr>, \<lparr>ConceptId = ''VB'', Name = ''/b''\<rparr>]"
  by code_simp

lemma selfLoop_query:
  "requiredVariableQuery selfLoopGraph [''VA''] = [\<lparr>ConceptId = ''VA'', Name = ''/a''\<rparr>]"
  by code_simp

text \<open>
  Claim C6. The query is a total function of the graph, whatever its cycles: a path it
  follows uses no relationship twice, so it has at most as many relationships as the
  graph, and the result has at most as many records as the graph has vertices. For two
  variables that require each other the result is both of them, whichever is requested;
  for a variable that requires itself the result is that variable.
\<close>

theorem query_terminates_on_cycles:
  "(\<forall>p \<in> set (trails g [] v).
      distinct p \<and> 1 \<le> length p \<and> length p \<le> length (relationships g))
   \<and> length (requiredVariableQuery g requestedVariableConceptIds) \<le> length (vertices g)
   \<and> set (requiredVariableQuery g requestedVariableConceptIds) =
       recordOf g ` {j. j < length (vertices g)
                      \<and> j \<in> (requiresRel g)\<^sup>+ `` seedVertices g requestedVariableConceptIds}
   \<and> ConceptId ` set (requiredVariableQuery cycleGraph [''VA'']) = {''VA'', ''VB''}
   \<and> ConceptId ` set (requiredVariableQuery cycleGraph [''VB'']) = {''VA'', ''VB''}
   \<and> ConceptId ` set (requiredVariableQuery selfLoopGraph [''VA'']) = {''VA''}"
proof -
  have a: "\<forall>p \<in> set (trails g [] v).
      distinct p \<and> 1 \<le> length p \<and> length p \<le> length (relationships g)"
    using trails_bounded[of _ g v] by blast
  have b: "ConceptId ` set (requiredVariableQuery cycleGraph [''VA'']) = {''VA'', ''VB''}"
    by (auto simp: cycle_query_A)
  have c: "ConceptId ` set (requiredVariableQuery cycleGraph [''VB'']) = {''VA'', ''VB''}"
    by (auto simp: cycle_query_B)
  have d: "ConceptId ` set (requiredVariableQuery selfLoopGraph [''VA'']) = {''VA''}"
    by (simp add: selfLoop_query)
  show ?thesis
    by (intro conjI a b c d requiredVariableQuery_length requiredVariableQuery_reachable)
qed

theorem query_terminates_on_cycles_witness:
  "[2, 3] \<in> set (trails cycleGraph [] 1)
   \<and> distinct [2, 3::nat] \<and> length [2, 3::nat] \<le> length (relationships cycleGraph)
   \<and> length (relationships cycleGraph) = 4"
proof -
  have m: "[2, 3] \<in> set (trails cycleGraph [] 1)" by code_simp
  have l: "length (relationships cycleGraph) = 4" by (simp add: cycleGraph_eq)
  have "\<forall>p \<in> set (trails cycleGraph [] 1).
      distinct p \<and> 1 \<le> length p \<and> length p \<le> length (relationships cycleGraph)"
    by (rule conjunct1[OF query_terminates_on_cycles])
  then have "distinct [2, 3::nat] \<and> length [2, 3::nat] \<le> length (relationships cycleGraph)"
    using m by blast
  then show ?thesis using m l by blast
qed

section \<open>Augmenting twice\<close>

lemma extract_ids:
  "meta_concept_id ` set (extractVariableResults rows) = ConceptId ` set rows"
  by (auto simp: extractVariableResults_def image_iff)

lemma query_ids:
  "ConceptId ` set (requiredVariableQuery g ids) =
     {vConceptId (vertices g ! j) | i j. i < length (vertices g) \<and> j < length (vertices g)
        \<and> vLabel (vertices g ! i) = VariableLabel \<and> vConceptId (vertices g ! i) \<in> set ids
        \<and> (i, j) \<in> (requiresRel g)\<^sup>+}"
proof (intro set_eqI iffI)
  fix c assume "c \<in> ConceptId ` set (requiredVariableQuery g ids)"
  then obtain x where x: "x \<in> set (requiredVariableQuery g ids)" "c = ConceptId x" by auto
  from x(1) obtain i j where "x = \<lparr>ConceptId = vConceptId (vertices g ! j), Name = vName (vertices g ! j)\<rparr>"
      "i < length (vertices g)" "j < length (vertices g)"
      "vLabel (vertices g ! i) = VariableLabel" "vConceptId (vertices g ! i) \<in> set ids"
      "(i, j) \<in> (requiresRel g)\<^sup>+"
    unfolding requiredVariableQuery_set by blast
  then show "c \<in> {vConceptId (vertices g ! j) | i j. i < length (vertices g) \<and> j < length (vertices g)
        \<and> vLabel (vertices g ! i) = VariableLabel \<and> vConceptId (vertices g ! i) \<in> set ids
        \<and> (i, j) \<in> (requiresRel g)\<^sup>+}"
    using x(2) by auto
next
  fix c assume "c \<in> {vConceptId (vertices g ! j) | i j. i < length (vertices g) \<and> j < length (vertices g)
        \<and> vLabel (vertices g ! i) = VariableLabel \<and> vConceptId (vertices g ! i) \<in> set ids
        \<and> (i, j) \<in> (requiresRel g)\<^sup>+}"
  then obtain i j where ij: "c = vConceptId (vertices g ! j)"
      "i < length (vertices g)" "j < length (vertices g)"
      "vLabel (vertices g ! i) = VariableLabel" "vConceptId (vertices g ! i) \<in> set ids"
      "(i, j) \<in> (requiresRel g)\<^sup>+"
    by blast
  then have "\<lparr>ConceptId = vConceptId (vertices g ! j), Name = vName (vertices g ! j)\<rparr>
      \<in> set (requiredVariableQuery g ids)"
    unfolding requiredVariableQuery_set by blast
  then have "ConceptId \<lparr>ConceptId = vConceptId (vertices g ! j), Name = vName (vertices g ! j)\<rparr>
      \<in> ConceptId ` set (requiredVariableQuery g ids)"
    by (rule imageI)
  then show "c \<in> ConceptId ` set (requiredVariableQuery g ids)" using ij(1) by simp
qed

lemma query_closed:
  assumes d: "distinct (map vConceptId (vertices g))"
    and sub: "set ids' \<subseteq> set ids \<union> ConceptId ` set (requiredVariableQuery g ids)"
  shows "ConceptId ` set (requiredVariableQuery g ids') \<subseteq> ConceptId ` set (requiredVariableQuery g ids)"
proof
  fix c assume "c \<in> ConceptId ` set (requiredVariableQuery g ids')"
  then obtain i j where ij: "c = vConceptId (vertices g ! j)" "i < length (vertices g)"
      "j < length (vertices g)" "vLabel (vertices g ! i) = VariableLabel"
      "vConceptId (vertices g ! i) \<in> set ids'" "(i, j) \<in> (requiresRel g)\<^sup>+"
    unfolding query_ids by blast
  from ij(5) sub have "vConceptId (vertices g ! i) \<in> set ids
      \<or> vConceptId (vertices g ! i) \<in> ConceptId ` set (requiredVariableQuery g ids)"
    by blast
  then show "c \<in> ConceptId ` set (requiredVariableQuery g ids)"
  proof
    assume "vConceptId (vertices g ! i) \<in> set ids"
    then show ?thesis unfolding query_ids using ij by blast
  next
    assume "vConceptId (vertices g ! i) \<in> ConceptId ` set (requiredVariableQuery g ids)"
    then obtain i0 k where k: "vConceptId (vertices g ! i) = vConceptId (vertices g ! k)"
        "i0 < length (vertices g)" "k < length (vertices g)"
        "vLabel (vertices g ! i0) = VariableLabel"
        "vConceptId (vertices g ! i0) \<in> set ids" "(i0, k) \<in> (requiresRel g)\<^sup>+"
      unfolding query_ids by blast
    have "i = k" using nth_eq_iff_index_eq[OF d, of i k] ij(2) k(1,3) by simp
    then have "(i0, j) \<in> (requiresRel g)\<^sup>+" using k(6) ij(6) by auto
    then show ?thesis unfolding query_ids using ij k by blast
  qed
qed

lemma augmentFrom_idem:
  assumes "distinct (map vConceptId (vertices g))"
  shows "augmentFrom g (augmentFrom g varInfo) = augmentFrom g varInfo"
proof (cases "variables varInfo")
  case None
  then show ?thesis by (simp add: augmentFrom_def)
next
  case (Some requested)
  let ?rows = "extractVariableResults (requiredVariableQuery g (map meta_concept_id requested))"
  let ?once = "forEachPush requested ?rows"
  obtain appended where a: "?once = requested @ appended"
      "meta_concept_id ` set appended = meta_concept_id ` set ?rows - meta_concept_id ` set requested"
    using forEachPush_appends[of requested ?rows] by blast
  have ids: "meta_concept_id ` set ?once
      = meta_concept_id ` set requested \<union> ConceptId ` set (requiredVariableQuery g (map meta_concept_id requested))"
    using a by (auto simp: extract_ids image_Un)
  have "ConceptId ` set (requiredVariableQuery g (map meta_concept_id ?once))
      \<subseteq> ConceptId ` set (requiredVariableQuery g (map meta_concept_id requested))"
    using ids by (intro query_closed[OF assms]) simp
  then have "meta_concept_id ` set (extractVariableResults (requiredVariableQuery g (map meta_concept_id ?once)))
      \<subseteq> meta_concept_id ` set ?once"
    using ids by (auto simp: extract_ids)
  then have "forEachPush ?once (extractVariableResults (requiredVariableQuery g (map meta_concept_id ?once)))
      = ?once"
    by (rule forEachPush_noop)
  then show ?thesis using Some by (simp add: augmentFrom_def)
qed

text \<open>
  Claim C5, as the code has it. The query finds its start vertices by their concept id,
  in the whole database. With a server that answers and holds a graph in which no two
  vertices have the same concept id, augmenting the array that an augmentation returned
  succeeds and leaves every array as it is: the second call appends nothing.
\<close>

theorem addRequiredVariables_idempotent:
  assumes "distinct (map vConceptId (vertices g))"
  shows "fst (addRequiredVariables (graphStore g) varInfos s) = Inr varInfos
       \<and> fst (addRequiredVariables (graphStore g) varInfos
                (snd (addRequiredVariables (graphStore g) varInfos s))) = Inr varInfos
       \<and> heap (snd (addRequiredVariables (graphStore g) varInfos
                (snd (addRequiredVariables (graphStore g) varInfos s))))
           = heap (snd (addRequiredVariables (graphStore g) varInfos s))"
proof -
  let ?s1 = "snd (addRequiredVariables (graphStore g) varInfos s)"
  have h1: "heap ?s1 = (heap s)(varInfos := map (augmentFrom g) (heap s varInfos))"
    using addRequiredVariables_graphStore[of g varInfos s] by simp
  have "map (augmentFrom g) (heap ?s1 varInfos) = heap ?s1 varInfos"
    unfolding h1 by (simp add: augmentFrom_idem[OF assms])
  then have "heap (snd (addRequiredVariables (graphStore g) varInfos ?s1)) = heap ?s1"
    using addRequiredVariables_graphStore[of g varInfos ?s1] by simp
  then show ?thesis
    using addRequiredVariables_graphStore[of g varInfos s]
      addRequiredVariables_graphStore[of g varInfos ?s1]
    by simp
qed

theorem addRequiredVariables_idempotent_witness:
  "distinct (map vConceptId (vertices cycleGraph))
   \<and> heap (snd (addRequiredVariables (graphStore cycleGraph) 0
        (requestState [\<lparr>collectionId = ''C1'', variables = Some [varA]\<rparr>]))) 0
       = [\<lparr>collectionId = ''C1'', variables = Some [varA, varB]\<rparr>]
   \<and> heap (snd (addRequiredVariables (graphStore cycleGraph) 0
        (snd (addRequiredVariables (graphStore cycleGraph) 0
           (requestState [\<lparr>collectionId = ''C1'', variables = Some [varA]\<rparr>]))))) 0
       = [\<lparr>collectionId = ''C1'', variables = Some [varA, varB]\<rparr>]"
proof -
  have d: "distinct (map vConceptId (vertices cycleGraph))"
    by (simp add: cycleGraph_eq)
  have o: "heap (snd (addRequiredVariables (graphStore cycleGraph) 0
        (requestState [\<lparr>collectionId = ''C1'', variables = Some [varA]\<rparr>]))) 0
       = [\<lparr>collectionId = ''C1'', variables = Some [varA, varB]\<rparr>]"
    by code_simp
  show ?thesis
    using addRequiredVariables_idempotent[OF d, of 0
        "requestState [\<lparr>collectionId = ''C1'', variables = Some [varA]\<rparr>]"] d o
    by simp
qed

section \<open>The ATL08 scenario\<close>

lemma createAll_fixtures: "createAll [rssmif16d, atl08] emptyGraph = Inr populatedContent"
  by code_simp

lemma populateDatabase_content: "populateDatabase previous = populatedContent"
  by (simp only: populateDatabase_def populateWith_def createAll_fixtures sum.case)

lemma populated_seed:
  "seedVertices populatedContent [''V1237330160-EEDTEST''] = {10}"
proof -
  have "filter (\<lambda>i. vLabel (vertices populatedContent ! i) = VariableLabel
                    \<and> vConceptId (vertices populatedContent ! i) \<in> set [''V1237330160-EEDTEST''])
            [0..<length (vertices populatedContent)] = [10]"
    by code_simp
  then show ?thesis by (simp add: seedVertices_filter)
qed

lemma populated_requires:
  "requiresRel populatedContent =
     {(1, 2), (1, 5), (1, 8), (3, 2), (3, 5), (3, 8), (4, 2), (4, 5), (4, 8),
      (6, 2), (6, 5), (6, 8), (7, 2), (7, 5), (7, 8),
      (10, 15), (16, 15), (17, 15), (18, 15), (15, 20), (15, 21),
      (20, 13), (20, 14), (20, 19), (21, 13), (21, 14), (21, 19),
      (11, 13), (11, 14), (11, 19), (12, 13), (12, 14), (12, 19),
      (13, 19), (14, 19), (19, 13), (19, 14), (14, 13), (13, 14)}"
  by (simp add: requiresRel_def populatedContent_def)

lemma populated_length: "length (vertices populatedContent) = 22"
  by (simp add: populatedContent_def)


lemma trancl_Image_closed:
  assumes "R `` S \<subseteq> T" "R `` T \<subseteq> T"
  shows "R\<^sup>+ `` S \<subseteq> T"
proof
  fix y assume "y \<in> R\<^sup>+ `` S"
  then obtain x where x: "x \<in> S" "(x, y) \<in> R\<^sup>+" by auto
  from x(2) show "y \<in> T"
    by (induction rule: trancl_induct) (use assms x(1) in auto)
qed

lemma populated_reachable:
  "(requiresRel populatedContent)\<^sup>+ `` {10} = {15, 20, 21, 13, 14, 19}"
proof (rule antisym)
  show "(requiresRel populatedContent)\<^sup>+ `` {10} \<subseteq> {15, 20, 21, 13, 14, 19}"
    by (rule trancl_Image_closed) (auto simp: populated_requires)
  have e: "(10, 15) \<in> requiresRel populatedContent" "(15, 20) \<in> requiresRel populatedContent"
    "(15, 21) \<in> requiresRel populatedContent" "(20, 13) \<in> requiresRel populatedContent"
    "(20, 14) \<in> requiresRel populatedContent" "(20, 19) \<in> requiresRel populatedContent"
    by (simp_all add: populated_requires)
  have a: "(10, 15) \<in> (requiresRel populatedContent)\<^sup>+" using e(1) by (rule r_into_trancl)
  have b: "(10, 20) \<in> (requiresRel populatedContent)\<^sup>+" using a e(2) by (rule trancl_into_trancl)
  have c: "(10, 21) \<in> (requiresRel populatedContent)\<^sup>+" using a e(3) by (rule trancl_into_trancl)
  have d: "(10, 13) \<in> (requiresRel populatedContent)\<^sup>+" using b e(4) by (rule trancl_into_trancl)
  have f: "(10, 14) \<in> (requiresRel populatedContent)\<^sup>+" using b e(5) by (rule trancl_into_trancl)
  have g: "(10, 19) \<in> (requiresRel populatedContent)\<^sup>+" using b e(6) by (rule trancl_into_trancl)
  show "{15, 20, 21, 13, 14, 19} \<subseteq> (requiresRel populatedContent)\<^sup>+ `` {10}"
    using a b c d f g by blast
qed

lemma populated_query_P0:
  "set (requiredVariableQuery populatedContent [''V1237330160-EEDTEST''])
     = recordOf populatedContent ` {15, 20, 21, 13, 14, 19}"
proof -
  have "{j. j < length (vertices populatedContent)
            \<and> j \<in> (requiresRel populatedContent)\<^sup>+ `` seedVertices populatedContent [''V1237330160-EEDTEST'']}
        = {15, 20, 21, 13, 14, 19}"
    unfolding populated_seed populated_reachable populated_length by auto
  then show ?thesis by (simp only: requiredVariableQuery_reachable)
qed

lemma populated_records:
  "extractVariableResults (map (recordOf populatedContent) [15, 20, 21, 13, 14, 19])
     = map atl08P [5, 10, 11, 3, 4, 9]"
  by code_simp


lemma subseq_subset: "subseq xs ys \<Longrightarrow> set xs \<subseteq> set ys"
  by (auto elim: list_emb_set)

lemma atl08P_ids:
  "distinct (map meta_concept_id (map atl08P [0, 5, 10, 11, 3, 4, 9]))
   \<and> meta_concept_id (atl08P 0) = ''V1237330160-EEDTEST''
   \<and> collectionConceptId atl08 = ''C1234714698-EEDTEST''"
  by code_simp

lemma same_ids_same_set:
  assumes "A \<subseteq> B" "f ` A = f ` B" "inj_on f B"
  shows "A = B"
proof
  show "A \<subseteq> B" by (rule assms(1))
  show "B \<subseteq> A"
  proof
    fix x assume x: "x \<in> B"
    then have "f x \<in> f ` A" using assms(2) by blast
    then obtain a where a: "a \<in> A" "f a = f x" by auto
    then have "a = x" using assms(1,3) x by (auto dest: inj_onD)
    then show "x \<in> A" using a(1) by simp
  qed
qed

text \<open>
  Claim C7. The database is populated from the two collections; the request is the
  variable P0 of ATL08. Whatever the order (or repetition) in which the server returns the
  records of the query, \<open>addRequiredVariables\<close> returns the array with P0 first,
  followed by P5, P10, P11, P3, P4 and P9 in some order, each once: the augmented set is
  \<open>{P0, P5, P10, P11, P3, P4, P9}\<close>.
\<close>

theorem atl08_P0_augmented:
  assumes h: "heap s varInfos = [\<lparr>collectionId = collectionConceptId atl08, variables = Some [atl08P 0]\<rparr>]"
    and r: "run db (length (queries s)) requiredVariableQuery [meta_concept_id (atl08P 0)] = Inr rows"
    and rows: "set rows = set (requiredVariableQuery (populateDatabase previous) [meta_concept_id (atl08P 0)])"
    and c: "sessionClose db (length (queries s)) = None" "driverClose db (length (queries s)) = None"
  shows "\<exists>appended.
           fst (addRequiredVariables db varInfos s) = Inr varInfos
         \<and> heap (snd (addRequiredVariables db varInfos s)) varInfos
             = [\<lparr>collectionId = collectionConceptId atl08, variables = Some (atl08P 0 # appended)\<rparr>]
         \<and> set appended = atl08P ` {5, 10, 11, 3, 4, 9}
         \<and> distinct appended \<and> length appended = 6
         \<and> set (atl08P 0 # appended) = atl08P ` {0, 5, 10, 11, 3, 4, 9}"
proof -
  let ?E = "atl08P ` {5, 10, 11, 3, 4, 9}"
  let ?closure = "extractVariableResults rows"
  have id0: "meta_concept_id (atl08P 0) = ''V1237330160-EEDTEST''" using atl08P_ids by blast
  have d: "distinct (map meta_concept_id (map atl08P [0, 5, 10, 11, 3, 4, 9]))"
    using atl08P_ids by blast
  have g: "getRequiredVariables db (map meta_concept_id [atl08P 0]) s
         = (Inr (Some ?closure), s\<lparr>queries := queries s @ [[meta_concept_id (atl08P 0)]]\<rparr>)"
    using r c by (simp add: getRequiredVariables_def performCypherQuery_def)
  have v: "variables (heap s varInfos ! 0) = Some [atl08P 0]" using h by simp
  let ?s2 = "s\<lparr>queries := queries s @ [[meta_concept_id (atl08P 0)]],
               heap := (heap s)(varInfos := (heap s varInfos)[0 := (heap s varInfos ! 0)\<lparr>variables :=
                  Some (forEachPush [atl08P 0] ?closure)\<rparr>])\<rparr>"
  have "addRequiredLoop db varInfos [0] s = (Inr (), ?s2)"
    using addRequiredLoop_Some[where rest="[]", OF v g] by simp
  moreover have "[0..<length (heap s varInfos)] = [0]" using h by simp
  ultimately have res: "addRequiredVariables db varInfos s = (Inr varInfos, ?s2)"
    by (simp add: addRequiredVariables_def)
  obtain appended where a: "forEachPush [atl08P 0] ?closure = [atl08P 0] @ appended"
      "subseq appended ?closure" "distinct (map meta_concept_id appended)"
      "meta_concept_id ` set appended = meta_concept_id ` set ?closure - meta_concept_id ` set [atl08P 0]"
    using forEachPush_appends[of "[atl08P 0]" ?closure] by blast
  have "set rows = recordOf populatedContent ` {15, 20, 21, 13, 14, 19}"
    using rows by (simp only: populateDatabase_content id0 populated_query_P0)
  then have "set ?closure = set (extractVariableResults (map (recordOf populatedContent) [15, 20, 21, 13, 14, 19]))"
    by (simp add: extractVariableResults_def)
  then have cl: "set ?closure = ?E" by (simp only: populated_records) simp
  have sub: "set appended \<subseteq> ?E" using subseq_subset[OF a(2)] cl by simp
  have inj: "inj_on meta_concept_id ?E"
    using d by (auto simp: inj_on_def)
  have "meta_concept_id (atl08P 0) \<notin> meta_concept_id ` ?E" using d by auto
  then have "meta_concept_id ` set appended = meta_concept_id ` ?E" using a(4) cl by auto
  with sub have sa: "set appended = ?E" using inj by (rule same_ids_same_set)
  have da: "distinct appended" using a(3) by (rule distinct_map[THEN iffD1, THEN conjunct1])
  have "distinct (map atl08P [5, 10, 11, 3, 4, 9])" using d by (auto simp: distinct_map)
  then have "card ?E = 6" using distinct_card[of "map atl08P [5, 10, 11, 3, 4, 9]"] by simp
  then have la: "length appended = 6" using da sa distinct_card[of appended] by simp
  have hp: "heap (snd (addRequiredVariables db varInfos s)) varInfos
             = [\<lparr>collectionId = collectionConceptId atl08, variables = Some (atl08P 0 # appended)\<rparr>]"
    using res h a(1) by simp
  have all: "set (atl08P 0 # appended) = atl08P ` {0, 5, 10, 11, 3, 4, 9}" using sa by auto
  show ?thesis using res hp sa da la all by (intro exI[of _ appended]) simp
qed

theorem atl08_P0_augmented_witness:
  "heap (requestState [\<lparr>collectionId = collectionConceptId atl08, variables = Some [atl08P 0]\<rparr>]) 0
     = [\<lparr>collectionId = collectionConceptId atl08, variables = Some [atl08P 0]\<rparr>]
   \<and> run (graphStore (populateDatabase emptyGraph)) 0 requiredVariableQuery [meta_concept_id (atl08P 0)]
     = Inr (requiredVariableQuery (populateDatabase emptyGraph) [meta_concept_id (atl08P 0)])
   \<and> (\<exists>appended.
        heap (snd (addRequiredVariables (graphStore (populateDatabase emptyGraph)) 0
                (requestState [\<lparr>collectionId = collectionConceptId atl08, variables = Some [atl08P 0]\<rparr>]))) 0
          = [\<lparr>collectionId = ''C1234714698-EEDTEST'', variables = Some (atl08P 0 # appended)\<rparr>]
        \<and> set (atl08P 0 # appended) = atl08P ` {0, 5, 10, 11, 3, 4, 9})"
proof -
  let ?s = "requestState [\<lparr>collectionId = collectionConceptId atl08, variables = Some [atl08P 0]\<rparr>]"
  let ?db = "graphStore (populateDatabase emptyGraph)"
  have h: "heap ?s 0 = [\<lparr>collectionId = collectionConceptId atl08, variables = Some [atl08P 0]\<rparr>]"
    by (simp add: requestState_def)
  have q: "length (queries ?s) = 0" by (simp add: requestState_def)
  have r: "run ?db (length (queries ?s)) requiredVariableQuery [meta_concept_id (atl08P 0)]
     = Inr (requiredVariableQuery (populateDatabase emptyGraph) [meta_concept_id (atl08P 0)])"
    by (simp add: graphStore_def)
  have c: "sessionClose ?db (length (queries ?s)) = None" "driverClose ?db (length (queries ?s)) = None"
    by (simp_all add: graphStore_def)
  have i: "collectionConceptId atl08 = ''C1234714698-EEDTEST''" using atl08P_ids by blast
  from atl08_P0_augmented[OF h r refl c]
  obtain appended where
    "heap (snd (addRequiredVariables ?db 0 ?s)) 0
       = [\<lparr>collectionId = collectionConceptId atl08, variables = Some (atl08P 0 # appended)\<rparr>]"
    "set (atl08P 0 # appended) = atl08P ` {0, 5, 10, 11, 3, 4, 9}"
    by blast
  then have "\<exists>appended.
        heap (snd (addRequiredVariables ?db 0 ?s)) 0
          = [\<lparr>collectionId = ''C1234714698-EEDTEST'', variables = Some (atl08P 0 # appended)\<rparr>]
        \<and> set (atl08P 0 # appended) = atl08P ` {0, 5, 10, 11, 3, 4, 9}"
    unfolding i by blast
  then show ?thesis using h r[unfolded q] by blast
qed

section \<open>A concept id in two collections\<close>

text \<open>
  The claim C5 as the specification states it, for every catalog, fails: each of the two
  collections has concept ids of its own, and one concept id is in both. The request is
  the variable \<open>/a\<close> of the first collection. The first call appends \<open>/b\<close>; the second
  call, on the array the first returned, appends \<open>/c\<close> of the second collection, which
  the vertex of that collection with the concept id of \<open>/b\<close> requires.
\<close>

theorem second_call_appends_counterexample:
  "vertices sharedGraph =
     [\<lparr>vLabel = CollectionLabel, vConceptId = ''C1'', vName = ''FIRST'', vDataType = None\<rparr>,
      \<lparr>vLabel = VariableLabel, vConceptId = ''VA'', vName = ''/a'', vDataType = Some ''float32''\<rparr>,
      \<lparr>vLabel = VariableLabel, vConceptId = ''VB'', vName = ''/b'', vDataType = Some ''float32''\<rparr>,
      \<lparr>vLabel = CollectionLabel, vConceptId = ''C2'', vName = ''SECOND'', vDataType = None\<rparr>,
      \<lparr>vLabel = VariableLabel, vConceptId = ''VB'', vName = ''/b'', vDataType = Some ''float32''\<rparr>,
      \<lparr>vLabel = VariableLabel, vConceptId = ''VC'', vName = ''/c'', vDataType = Some ''float32''\<rparr>]
   \<and> heap (snd (addRequiredVariables (graphStore sharedGraph) 0
        (requestState [\<lparr>collectionId = ''C1'', variables = Some [varA]\<rparr>]))) 0
       = [\<lparr>collectionId = ''C1'', variables = Some [varA, varB]\<rparr>]
   \<and> heap (snd (addRequiredVariables (graphStore sharedGraph) 0
        (snd (addRequiredVariables (graphStore sharedGraph) 0
           (requestState [\<lparr>collectionId = ''C1'', variables = Some [varA]\<rparr>]))))) 0
       = [\<lparr>collectionId = ''C1'', variables = Some [varA, varB, varC]\<rparr>]
   \<and> heap (snd (addRequiredVariables (graphStore sharedGraph) 0
        (snd (addRequiredVariables (graphStore sharedGraph) 0
           (requestState [\<lparr>collectionId = ''C1'', variables = Some [varA]\<rparr>]))))) 0
       \<noteq> heap (snd (addRequiredVariables (graphStore sharedGraph) 0
        (requestState [\<lparr>collectionId = ''C1'', variables = Some [varA]\<rparr>]))) 0"
  by code_simp

section \<open>A requested variable on a cycle\<close>

lemma populated_seed_P3:
  "seedVertices populatedContent [''V1237332356-EEDTEST''] = {13}"
proof -
  have "filter (\<lambda>i. vLabel (vertices populatedContent ! i) = VariableLabel
                    \<and> vConceptId (vertices populatedContent ! i) \<in> set [''V1237332356-EEDTEST''])
            [0..<length (vertices populatedContent)] = [13]"
    by code_simp
  then show ?thesis by (simp add: seedVertices_filter)
qed

lemma populated_record_P3:
  "recordOf populatedContent 13
     = \<lparr>ConceptId = ''V1237332356-EEDTEST'', Name = ''/gt1l/land_segments/latitude''\<rparr>"
  by code_simp

text \<open>
  The claim C2 as the specification states it fails where it says that a requested
  variable is in the result only if another requested variable reaches it. With the two
  variables that require each other and the request of \<open>/a\<close> alone, \<open>/a\<close> is the only
  requested vertex and its record is returned. In the populated database, with the
  request of the latitude of ATL08 alone (P3, which requires P9, which requires P3), the
  latitude is the only requested vertex and its record is returned.
\<close>

theorem lone_seed_returned_counterexample:
  "seedVertices cycleGraph [''VA''] = {1}
   \<and> recordOf cycleGraph 1 = \<lparr>ConceptId = ''VA'', Name = ''/a''\<rparr>
   \<and> \<lparr>ConceptId = ''VA'', Name = ''/a''\<rparr> \<in> set (requiredVariableQuery cycleGraph [''VA''])
   \<and> seedVertices (populateDatabase emptyGraph) [''V1237332356-EEDTEST''] = {13}
   \<and> recordOf (populateDatabase emptyGraph) 13
       = \<lparr>ConceptId = ''V1237332356-EEDTEST'', Name = ''/gt1l/land_segments/latitude''\<rparr>
   \<and> \<lparr>ConceptId = ''V1237332356-EEDTEST'', Name = ''/gt1l/land_segments/latitude''\<rparr>
       \<in> set (requiredVariableQuery (populateDatabase emptyGraph) [''V1237332356-EEDTEST''])"
proof -
  have r: "recordOf cycleGraph 1 = \<lparr>ConceptId = ''VA'', Name = ''/a''\<rparr>" by code_simp
  have a: "\<lparr>ConceptId = ''VA'', Name = ''/a''\<rparr> \<in> set (requiredVariableQuery cycleGraph [''VA''])"
    by (simp add: cycle_query_A)
  have e: "(13, 19) \<in> requiresRel populatedContent" "(19, 13) \<in> requiresRel populatedContent"
    by (simp_all add: populated_requires)
  have "(13, 13) \<in> (requiresRel populatedContent)\<^sup>+"
    using r_into_trancl[OF e(1)] e(2) by (rule trancl_into_trancl)
  then have "13 \<in> (requiresRel populatedContent)\<^sup>+ `` seedVertices populatedContent [''V1237332356-EEDTEST'']"
    unfolding populated_seed_P3 by blast
  moreover have "(13::nat) < length (vertices populatedContent)" by (simp add: populated_length)
  ultimately have "recordOf populatedContent 13
      \<in> set (requiredVariableQuery populatedContent [''V1237332356-EEDTEST''])"
    unfolding requiredVariableQuery_reachable by blast
  then have b: "\<lparr>ConceptId = ''V1237332356-EEDTEST'', Name = ''/gt1l/land_segments/latitude''\<rparr>
       \<in> set (requiredVariableQuery populatedContent [''V1237332356-EEDTEST''])"
    by (simp only: populated_record_P3)
  show ?thesis
    unfolding populateDatabase_content
    by (intro conjI cycleGraph_seed_A r a populated_seed_P3 populated_record_P3 b)
qed

end
